theory Spec2Isabelle
  imports Complex_Main
begin

section \<open>PMSM torque-speed envelope: the numeric core of \<open>utils/motorPhysics.ts\<close>\<close>

text \<open>
  The source computes on JavaScript numbers (IEEE doubles).  The embedding reads every
  \<open>number\<close> as a \<^typ>\<open>real\<close>: \<open>Math.sqrt\<close>, \<open>Math.sin\<close>, \<open>Math.cos\<close>, \<open>Math.PI\<close>
  are \<^const>\<open>sqrt\<close>, \<^const>\<open>sin\<close>, \<^const>\<open>cos\<close>, \<^const>\<open>pi\<close>, and \<open>Math.ceil\<close> is the
  integer ceiling read back as a real.  Rounding, infinities and NaN are therefore outside
  the model; in particular a division agrees with the source only where the divisor is not
  zero, and the theorems below say so where a quotient decides the result.  The loop
  variables that the source advances by a constant (\<open>b += 0.5\<close>, \<open>rpm += stepRPM\<close>) are
  reals advanced by that constant; the two bisections run a fixed number of passes and
  are recursions on that number.
\<close>

subsection \<open>Data model (\<open>types.ts\<close>)\<close>

datatype MotorType = IPMSM | SPMSM

text \<open>The source's \<open>'MTPA' | 'Id=0'\<close>.\<close>

datatype ControlStrategy = MTPA | IdZero

record MotorParams =
  motorType :: MotorType
  controlStrategy :: ControlStrategy
  enableFluxWeakening :: bool
  rs :: real
  ld :: real
  lq :: real
  psif :: real
  p :: real
  vdc :: real
  voltageUtilization :: real
  imax :: real
  maxSpeed :: real

text \<open>
  The fields \<open>power\<close> and \<open>id\<close> of the source's \<open>SimulationPoint\<close> carry a suffix here,
  since both names are taken in HOL.
\<close>

record SimulationPoint =
  speedRPM :: real
  torque :: real
  power_kW :: real
  voltageIndex :: real
  currentAngle :: real
  id_axis :: real
  iq :: real

record SimulationResult =
  points :: "SimulationPoint list"
  maxTorque :: real
  baseSpeed :: real
  maxPower :: real

text \<open>
  The locals of the sweep that change from one speed to the next: the four result fields
  and the flag \<open>baseSpeedFound\<close>.
\<close>

record SweepState = SimulationResult +
  baseSpeedFound :: bool

subsection \<open>\<open>calculateTheoreticalMaxSpeed\<close>\<close>

definition vLim :: "MotorParams \<Rightarrow> real" where
  "vLim ps = (vdc ps / sqrt 3) * voltageUtilization ps"

definition calculateTheoreticalMaxSpeed :: "MotorParams \<Rightarrow> real" where
  "calculateTheoreticalMaxSpeed ps =
     (if \<not> enableFluxWeakening ps then
        (let maxRadS = vLim ps / psif ps;
             maxRPM = (maxRadS * 60) / (2 * pi * p ps)
         in of_int \<lceil>maxRPM / 100\<rceil> * 100)
      else
        (let ich = psif ps / ld ps in
         if imax ps \<ge> ich then 20000
         else
           (let residualFlux = \<bar>psif ps - ld ps * imax ps\<bar> in
            if residualFlux < 1 / 10 ^ 9 then 20000
            else
              (let maxRadS = vLim ps / residualFlux;
                   maxRPM = (maxRadS * 60) / (2 * pi * p ps)
               in of_int \<lceil>maxRPM / 100\<rceil> * 100))))"

subsection \<open>\<open>calculateMotorCharacteristics\<close>: helpers and the base operating point\<close>

definition stepRPM :: "MotorParams \<Rightarrow> real" where
  "stepRPM ps = max 10 (of_int \<lceil>maxSpeed ps / 100\<rceil>)"

definition getTorque :: "MotorParams \<Rightarrow> real \<Rightarrow> real \<Rightarrow> real" where
  "getTorque ps i_mag rad =
     (let i_d = - i_mag * sin rad;
          i_q = i_mag * cos rad
      in 1.5 * p ps * (psif ps * i_q + (ld ps - lq ps) * i_d * i_q))"

text \<open>
  The MTPA scan \<open>for (b = 0; b <= 90; b += 0.5)\<close>, carrying \<open>(betaStart, maxT_static)\<close>.
\<close>

function mtpaScan :: "MotorParams \<Rightarrow> real \<Rightarrow> real \<times> real \<Rightarrow> real \<times> real" where
  "mtpaScan ps b (betaStart, maxT_static) =
     (if b \<le> 90 then
        (let rad = (b * pi) / 180;
             t = getTorque ps (imax ps) rad
         in if t > maxT_static then mtpaScan ps (b + 0.5) (rad, t)
            else mtpaScan ps (b + 0.5) (betaStart, maxT_static))
      else (betaStart, maxT_static))"
  by pat_completeness auto
termination
proof (relation "measure (\<lambda>(ps, b, acc). nat \<lceil>(91 - b) * 2\<rceil>)")
  show "wf (measure (\<lambda>(ps, b, acc). nat \<lceil>(91 - b) * 2\<rceil>))" by simp
qed (simp_all, linarith+)

declare mtpaScan.simps [simp del]

text \<open>
  Step 1 of the source: \<open>(betaStart, maxT_static)\<close>, both initially 0.
\<close>

definition basePoint :: "MotorParams \<Rightarrow> real \<times> real" where
  "basePoint ps =
     (if controlStrategy ps = IdZero then (0, getTorque ps (imax ps) 0)
      else mtpaScan ps 0 (0, 0))"

definition id_base :: "MotorParams \<Rightarrow> real" where
  "id_base ps = - imax ps * sin (fst (basePoint ps))"

definition iq_base :: "MotorParams \<Rightarrow> real" where
  "iq_base ps = imax ps * cos (fst (basePoint ps))"

subsection \<open>The operating point at one speed\<close>

definition omegaOf :: "MotorParams \<Rightarrow> real \<Rightarrow> real" where
  "omegaOf ps rpm = (rpm * 2 * pi / 60) * p ps"

definition getVoltageMag :: "MotorParams \<Rightarrow> real \<Rightarrow> real \<Rightarrow> real \<Rightarrow> real" where
  "getVoltageMag ps omega cId cIq =
     (let vd = rs ps * cId - omega * lq ps * cIq;
          vq = rs ps * cIq + omega * (ld ps * cId + psif ps)
      in sqrt (vd * vd + vq * vq))"

text \<open>
  Region 2 with flux weakening: the bisection \<open>for (i = 0; i < 20; i++)\<close> over the
  angle, carrying \<open>(low, high, optimalB, foundSolution)\<close>.  The body does not read \<open>i\<close>,
  so the first argument counts the iterations still to run.
\<close>

fun fwSearch :: "MotorParams \<Rightarrow> real \<Rightarrow> nat \<Rightarrow> real \<times> real \<times> real \<times> bool
    \<Rightarrow> real \<times> real \<times> real \<times> bool" where
  "fwSearch ps omega 0 s = s"
| "fwSearch ps omega (Suc n) (low, high, optimalB, foundSolution) =
     (let mid = (low + high) / 2;
          testId = - imax ps * sin mid;
          testIq = imax ps * cos mid
      in if getVoltageMag ps omega testId testIq \<le> vLim ps
         then fwSearch ps omega n (low, mid, mid, True)
         else fwSearch ps omega n (mid, high, optimalB, foundSolution))"

text \<open>
  Region 2 without flux weakening.  The torque expression is written inline, twice, in
  the source; \<open>coarseScan\<close> is \<open>for (b = 0; b <= 90; b += 5)\<close> and \<open>fineScan\<close> is
  \<open>for (b = bestDeg - 4; b <= bestDeg + 4; b += 1)\<close>, both carrying
  \<open>(tBeta, maxT_local)\<close>.
\<close>

definition trialTorque :: "MotorParams \<Rightarrow> real \<Rightarrow> real \<Rightarrow> real" where
  "trialTorque ps midI rad =
     1.5 * p ps * (psif ps * (midI * cos rad)
                   + (ld ps - lq ps) * (- midI * sin rad) * (midI * cos rad))"

function coarseScan :: "MotorParams \<Rightarrow> real \<Rightarrow> real \<Rightarrow> real \<times> real \<Rightarrow> real \<times> real" where
  "coarseScan ps midI b (tBeta, maxT_local) =
     (if b \<le> 90 then
        (let rad = (b * pi) / 180;
             t = trialTorque ps midI rad
         in if t > maxT_local then coarseScan ps midI (b + 5) (rad, t)
            else coarseScan ps midI (b + 5) (tBeta, maxT_local))
      else (tBeta, maxT_local))"
  by pat_completeness auto
termination
proof (relation "measure (\<lambda>(ps, midI, b, acc). nat \<lceil>95 - b\<rceil>)")
  show "wf (measure (\<lambda>(ps, midI, b, acc). nat \<lceil>(95::real) - b\<rceil>))" by simp
qed (simp_all, linarith+)

declare coarseScan.simps [simp del]

function fineScan :: "MotorParams \<Rightarrow> real \<Rightarrow> real \<Rightarrow> real \<Rightarrow> real \<times> real \<Rightarrow> real \<times> real" where
  "fineScan ps midI bestDeg b (tBeta, maxT_local) =
     (if b \<le> bestDeg + 4 then
        (let rad = (b * pi) / 180;
             t = trialTorque ps midI rad
         in if t > maxT_local then fineScan ps midI bestDeg (b + 1) (rad, t)
            else fineScan ps midI bestDeg (b + 1) (tBeta, maxT_local))
      else (tBeta, maxT_local))"
  by pat_completeness auto
termination
proof (relation "measure (\<lambda>(ps, midI, bestDeg, b, acc). nat \<lceil>bestDeg + 5 - b\<rceil>)")
  show "wf (measure (\<lambda>(ps, midI, bestDeg, b, acc). nat \<lceil>(bestDeg::real) + 5 - b\<rceil>))" by simp
qed (simp_all, linarith+)

declare fineScan.simps [simp del]

text \<open>The angle \<open>tBeta\<close> chosen for the trial magnitude \<open>midI\<close>.\<close>

definition trialBeta :: "MotorParams \<Rightarrow> real \<Rightarrow> real" where
  "trialBeta ps midI =
     (if controlStrategy ps = IdZero then 0
      else
        (let coarse = coarseScan ps midI 0 (0, - (10 ^ 9));
             bestDeg = fst coarse * 180 / pi
         in fst (fineScan ps midI bestDeg (bestDeg - 4) coarse)))"

text \<open>
  The bisection \<open>for (i = 0; i < 15; i++)\<close> over the current magnitude, carrying
  \<open>(lowI, highI, validId, validIq, validBeta)\<close>.
\<close>

fun magSearch :: "MotorParams \<Rightarrow> real \<Rightarrow> nat \<Rightarrow> real \<times> real \<times> real \<times> real \<times> real
    \<Rightarrow> real \<times> real \<times> real \<times> real \<times> real" where
  "magSearch ps omega 0 s = s"
| "magSearch ps omega (Suc n) (lowI, highI, validId, validIq, validBeta) =
     (let midI = (lowI + highI) / 2;
          tBeta = trialBeta ps midI;
          tId = - midI * sin tBeta;
          tIq = midI * cos tBeta
      in if getVoltageMag ps omega tId tIq \<le> vLim ps
         then magSearch ps omega n (midI, highI, tId, tIq, tBeta)
         else magSearch ps omega n (lowI, midI, validId, validIq, validBeta))"

text \<open>
  \<open>baseInfeasible ps rpm\<close>: the source's \<open>else\<close> branch of \<open>vMag_base <= vLim\<close> at the
  swept speed \<open>rpm\<close>.
\<close>

definition baseInfeasible :: "MotorParams \<Rightarrow> real \<Rightarrow> bool" where
  "baseInfeasible ps rpm =
     (\<not> getVoltageMag ps (omegaOf ps rpm) (id_base ps) (iq_base ps) \<le> vLim ps)"

text \<open>\<open>(currentId, currentIq, currentBeta)\<close> at the end of the region analysis.\<close>

definition operatingPoint :: "MotorParams \<Rightarrow> real \<Rightarrow> real \<times> real \<times> real" where
  "operatingPoint ps rpm =
     (let omega = omegaOf ps rpm;
          betaStart = fst (basePoint ps)
      in if \<not> baseInfeasible ps rpm then (id_base ps, iq_base ps, betaStart)
         else if enableFluxWeakening ps then
           (case fwSearch ps omega 20 (betaStart, pi / 2, pi / 2, False) of
              (low, high, optimalB, foundSolution) \<Rightarrow>
                if foundSolution
                then (- imax ps * sin optimalB, imax ps * cos optimalB, optimalB)
                else (0, 0, betaStart))
         else
           (case magSearch ps omega 15 (0, imax ps, 0, 0, 0) of
              (lowI, highI, validId, validIq, validBeta) \<Rightarrow> (validId, validIq, validBeta)))"

text \<open>The record pushed for the speed \<open>rpm\<close>.\<close>

definition simPoint :: "MotorParams \<Rightarrow> real \<Rightarrow> SimulationPoint" where
  "simPoint ps rpm =
     (case operatingPoint ps rpm of
        (currentId, currentIq, currentBeta) \<Rightarrow>
          (let torque = 1.5 * p ps * (psif ps * currentIq + (ld ps - lq ps) * currentId * currentIq);
               powerW = torque * (rpm * 2 * pi / 60);
               powerkW = powerW / 1000;
               vMag_final = getVoltageMag ps (omegaOf ps rpm) currentId currentIq;
               safeTorque = max 0 torque;
               safePower = max 0 powerkW
           in \<lparr>speedRPM = rpm, torque = safeTorque, power_kW = safePower,
               voltageIndex = min 1 (vMag_final / vLim ps),
               currentAngle = (currentBeta * 180) / pi,
               id_axis = currentId, iq = currentIq\<rparr>))"

subsection \<open>The speed sweep\<close>

text \<open>
  One pass of the body of \<open>for (rpm = 0; rpm <= maxSpeed; rpm += stepRPM)\<close>, up to and
  including \<open>points.push\<close>.
\<close>

definition sweepBody :: "MotorParams \<Rightarrow> real \<Rightarrow> SweepState \<Rightarrow> SweepState" where
  "sweepBody ps rpm st =
     (let st1 = (if baseInfeasible ps rpm \<and> \<not> baseSpeedFound st
                 then st\<lparr>baseSpeed := max 0 (rpm - stepRPM ps), baseSpeedFound := True\<rparr>
                 else st);
          pt = simPoint ps rpm;
          st2 = (if power_kW pt > maxPower st1 then st1\<lparr>maxPower := power_kW pt\<rparr> else st1)
      in st2\<lparr>points := points st2 @ [pt]\<rparr>)"

text \<open>The \<open>break\<close> test after the push.\<close>

definition collapsed :: "SimulationPoint \<Rightarrow> bool" where
  "collapsed pt = (speedRPM pt > 100 \<and> torque pt < 0.01)"

function sweep :: "MotorParams \<Rightarrow> real \<Rightarrow> SweepState \<Rightarrow> SweepState" where
  "sweep ps rpm st =
     (if rpm \<le> maxSpeed ps then
        (let st' = sweepBody ps rpm st
         in if collapsed (simPoint ps rpm) then st'
            else sweep ps (rpm + stepRPM ps) st')
      else st)"
  by pat_completeness auto
termination
proof (relation "measure (\<lambda>(ps, rpm, st). nat \<lceil>(maxSpeed ps - rpm) / stepRPM ps + 1\<rceil>)")
  show "wf (measure (\<lambda>(ps, rpm, st). nat \<lceil>(maxSpeed ps - rpm) / stepRPM ps + 1\<rceil>))" by simp
next
  fix ps :: MotorParams and rpm :: real and st x :: SweepState
  assume le: "rpm \<le> maxSpeed ps"
  have pos: "0 < stepRPM ps" by (simp add: stepRPM_def max_def)
  have "(maxSpeed ps - (rpm + stepRPM ps)) / stepRPM ps + 1 = (maxSpeed ps - rpm) / stepRPM ps"
    using pos by (simp add: field_simps)
  moreover have "0 \<le> (maxSpeed ps - rpm) / stepRPM ps" using le pos by simp
  ultimately show "((ps, rpm + stepRPM ps, x), (ps, rpm, st))
      \<in> measure (\<lambda>(ps, rpm, st). nat \<lceil>(maxSpeed ps - rpm) / stepRPM ps + 1\<rceil>)"
    by simp linarith
qed

declare sweep.simps [simp del]

definition calculateMotorCharacteristics :: "MotorParams \<Rightarrow> SimulationResult" where
  "calculateMotorCharacteristics ps =
     (let st0 = \<lparr>points = [], maxTorque = snd (basePoint ps), baseSpeed = 0, maxPower = 0,
                 baseSpeedFound = False\<rparr>
      in SimulationResult.truncate (sweep ps 0 st0))"

subsection \<open>Inputs used below, and notions for the proofs\<close>

text \<open>\<open>DEFAULT_PARAMS\<close> of \<open>constants.ts\<close>.\<close>

definition DEFAULT_PARAMS :: MotorParams where
  "DEFAULT_PARAMS =
     \<lparr>motorType = IPMSM, controlStrategy = MTPA, enableFluxWeakening = False,
      rs = 0.0595, ld = 0.0000235, lq = 0.000035, psif = 0.00159, p = 15,
      vdc = 18.5, voltageUtilization = 0.9, imax = 13, maxSpeed = 5000\<rparr>"

text \<open>The default motor with no current: every torque is 0, so the sweep stops at 150 RPM.\<close>

definition collapseParams :: MotorParams where
  "collapseParams = DEFAULT_PARAMS\<lparr>imax := 0\<rparr>"

text \<open>The first \<open>n\<close> values of the loop variable \<open>rpm\<close>, starting from \<open>rpm\<close>.\<close>

definition sweptSpeeds :: "MotorParams \<Rightarrow> real \<Rightarrow> nat \<Rightarrow> real list" where
  "sweptSpeeds ps rpm n = map (\<lambda>k. rpm + real k * stepRPM ps) [0..<n]"

text \<open>
  The loop invariant tying \<open>baseSpeedFound\<close> and \<open>baseSpeed\<close> to the speeds pushed so far.
\<close>

definition baseSpeedInv :: "MotorParams \<Rightarrow> SweepState \<Rightarrow> bool" where
  "baseSpeedInv ps st =
     ((baseSpeedFound st \<longleftrightarrow> find (baseInfeasible ps) (map speedRPM (points st)) \<noteq> None)
      \<and> baseSpeed st = (case find (baseInfeasible ps) (map speedRPM (points st)) of
                          None \<Rightarrow> 0 | Some r \<Rightarrow> max 0 (r - stepRPM ps)))"

text \<open>
  Scenarios A and B of the specification: the default motor under the \<open>Id=0\<close> strategy,
  without and with flux weakening.
\<close>

definition scenarioA :: MotorParams where
  "scenarioA = DEFAULT_PARAMS\<lparr>controlStrategy := IdZero\<rparr>"

definition scenarioB :: MotorParams where
  "scenarioB = DEFAULT_PARAMS\<lparr>controlStrategy := IdZero, enableFluxWeakening := True\<rparr>"

text \<open>
  Scenario D of the specification (\<open>imax\<close> above the characteristic current
  \<open>psif / ld = 67.66\<close>), and a motor whose residual flux \<open>psif - ld * imax\<close> is \<open>1e-10\<close>.
\<close>

definition scenarioD :: MotorParams where
  "scenarioD = DEFAULT_PARAMS\<lparr>enableFluxWeakening := True, imax := 100\<rparr>"

definition cancelledFluxParams :: MotorParams where
  "cancelledFluxParams =
     DEFAULT_PARAMS\<lparr>enableFluxWeakening := True, ld := 1, psif := 1, imax := 1 - 1 / 10 ^ 10\<rparr>"

text \<open>
  The default motor with equal inductances and the sign of the flux linkage reversed: no
  scanned angle gives a positive torque.
\<close>

definition negativeFluxParams :: MotorParams where
  "negativeFluxParams = DEFAULT_PARAMS\<lparr>motorType := SPMSM, lq := 0.0000235, psif := - 0.00159\<rparr>"

text \<open>
  A motor without current and with a large flux linkage: at 10 RPM the back EMF alone is
  above the voltage limit, so the flux-weakening search finds no angle.
\<close>

definition fallbackParams :: MotorParams where
  "fallbackParams = DEFAULT_PARAMS\<lparr>enableFluxWeakening := True, psif := 1, imax := 0, maxSpeed := 10\<rparr>"

text \<open>
  A motor for which, at 10 RPM, the base point violates the voltage limit and the first
  bisection midpoint (45 degrees) meets it.
\<close>

definition weakeningParams :: MotorParams where
  "weakeningParams =
     \<lparr>motorType = IPMSM, controlStrategy = IdZero, enableFluxWeakening = True,
      rs = 0, ld = 1, lq = 0.5, psif = 1, p = 3,
      vdc = 3.5, voltageUtilization = 1, imax = 1, maxSpeed = 10\<rparr>"

text \<open>
  The midpoints that \<open>fwSearch\<close> tests, in order: the same recursion, collecting \<open>mid\<close>.
\<close>

fun fwMidpoints :: "MotorParams \<Rightarrow> real \<Rightarrow> nat \<Rightarrow> real \<Rightarrow> real \<Rightarrow> real list" where
  "fwMidpoints ps omega 0 low high = []"
| "fwMidpoints ps omega (Suc n) low high =
     (let mid = (low + high) / 2
      in mid # (if getVoltageMag ps omega (- imax ps * sin mid) (imax ps * cos mid) \<le> vLim ps
                then fwMidpoints ps omega n low mid
                else fwMidpoints ps omega n mid high))"

text \<open>
  The loop invariant relating the regions of the pushed points to \<open>baseSpeed\<close>; \<open>rpm\<close> is
  the value of the loop variable before the next pass.
\<close>

definition regionInv :: "MotorParams \<Rightarrow> real \<Rightarrow> SweepState \<Rightarrow> bool" where
  "regionInv ps rpm st =
     (0 \<le> rpm \<and> 0 \<le> baseSpeed st
      \<and> (\<not> baseSpeedFound st \<longrightarrow>
            (\<forall>pt \<in> set (points st). \<not> baseInfeasible ps (speedRPM pt)))
      \<and> (baseSpeedFound st \<longrightarrow> baseSpeed st < rpm)
      \<and> (\<forall>pt \<in> set (points st).
            baseInfeasible ps (speedRPM pt) \<and> speedRPM pt \<noteq> 0 \<longrightarrow> baseSpeed st < speedRPM pt))"

text \<open>
  \<open>reached ps k\<close>: the loop runs its pass number \<open>k\<close> (at \<open>rpm = k * stepRPM\<close>): the speed
  is within \<open>maxSpeed\<close> and no earlier pass ended in \<open>break\<close>.
\<close>

definition reached :: "MotorParams \<Rightarrow> nat \<Rightarrow> bool" where
  "reached ps k =
     (real k * stepRPM ps \<le> maxSpeed ps
      \<and> (\<forall>j<k. \<not> collapsed (simPoint ps (real j * stepRPM ps))))"

text \<open>
  A motor swept at 0, 10 and 20 RPM whose base point meets the voltage limit at 0 and 10 RPM
  and violates it at 20 RPM.
\<close>

definition baseSpeedParams :: MotorParams where
  "baseSpeedParams =
     \<lparr>motorType = SPMSM, controlStrategy = IdZero, enableFluxWeakening = False,
      rs = 0, ld = 0.75, lq = 0.75, psif = 1, p = 3,
      vdc = 10.5, voltageUtilization = 1, imax = 1, maxSpeed = 20\<rparr>"


section \<open>Properties\<close>

subsection \<open>One pass of the loop body\<close>

lemma simPoint_speedRPM [simp]: "speedRPM (simPoint ps rpm) = rpm"
  by (simp add: simPoint_def Let_def split: prod.split)

lemma sweepBody_points [simp]: "points (sweepBody ps rpm st) = points st @ [simPoint ps rpm]"
  by (simp add: sweepBody_def Let_def)

lemma sweepBody_maxTorque [simp]: "maxTorque (sweepBody ps rpm st) = maxTorque st"
  by (simp add: sweepBody_def Let_def)

lemma sweepBody_baseSpeedFound [simp]:
  "baseSpeedFound (sweepBody ps rpm st) = (baseSpeedFound st \<or> baseInfeasible ps rpm)"
  by (auto simp add: sweepBody_def Let_def)

lemma sweepBody_baseSpeed [simp]:
  "baseSpeed (sweepBody ps rpm st) =
     (if baseInfeasible ps rpm \<and> \<not> baseSpeedFound st then max 0 (rpm - stepRPM ps)
      else baseSpeed st)"
  by (auto simp add: sweepBody_def Let_def)

lemma truncate_sel [simp]:
  "points (SimulationResult.truncate st) = points st"
  "maxTorque (SimulationResult.truncate st) = maxTorque st"
  "baseSpeed (SimulationResult.truncate st) = baseSpeed st"
  "maxPower (SimulationResult.truncate st) = maxPower st"
  by (simp_all add: SimulationResult.truncate_def)

lemma stepRPM_pos: "0 < stepRPM ps"
  by (simp add: stepRPM_def max_def)

lemma stepRPM_DEFAULT: "stepRPM DEFAULT_PARAMS = 50"
  by (simp add: stepRPM_def DEFAULT_PARAMS_def)

lemma simPoint_currents:
  "id_axis (simPoint ps rpm) = fst (operatingPoint ps rpm)"
  "iq (simPoint ps rpm) = fst (snd (operatingPoint ps rpm))"
  "currentAngle (simPoint ps rpm) = (snd (snd (operatingPoint ps rpm)) * 180) / pi"
  by (simp_all add: simPoint_def Let_def split: prod.split)

lemma simPoint_voltageIndex:
  "voltageIndex (simPoint ps rpm) =
     min 1 (getVoltageMag ps (omegaOf ps rpm) (id_axis (simPoint ps rpm)) (iq (simPoint ps rpm))
            / vLim ps)"
  by (simp add: simPoint_def Let_def split: prod.split)

lemma getVoltageMag_nonneg: "0 \<le> getVoltageMag ps omega cId cIq"
  by (simp add: getVoltageMag_def Let_def)

lemma simPoint_torque:
  "torque (simPoint ps rpm) =
     max 0 (1.5 * p ps * (psif ps * iq (simPoint ps rpm)
            + (ld ps - lq ps) * id_axis (simPoint ps rpm) * iq (simPoint ps rpm)))"
  by (simp add: simPoint_def Let_def split: prod.split)

subsection \<open>The shape of the sweep\<close>

lemma sweep_invariant:
  assumes "J rpm st"
    and "\<And>r s. J r s \<Longrightarrow> r \<le> maxSpeed ps \<Longrightarrow> J (r + stepRPM ps) (sweepBody ps r s)"
  shows "\<exists>r'. J r' (sweep ps rpm st)"
  using assms
proof (induction ps rpm st rule: sweep.induct)
  case (1 ps rpm st)
  show ?case
  proof (cases "rpm \<le> maxSpeed ps")
    case False
    then show ?thesis using "1.prems" by (subst sweep.simps) auto
  next
    case True
    have J': "J (rpm + stepRPM ps) (sweepBody ps rpm st)"
      using "1.prems"(2) "1.prems"(1) True by blast
    show ?thesis
    proof (cases "collapsed (simPoint ps rpm)")
      case True
      then show ?thesis using J' \<open>rpm \<le> maxSpeed ps\<close> by (subst sweep.simps) auto
    next
      case False
      from "1.IH"[OF \<open>rpm \<le> maxSpeed ps\<close> refl False J' "1.prems"(2)]
      show ?thesis using False \<open>rpm \<le> maxSpeed ps\<close> by (subst sweep.simps) (simp add: Let_def)
    qed
  qed
qed

lemma sweptSpeeds_Suc:
  "sweptSpeeds ps rpm (Suc n) = rpm # sweptSpeeds ps (rpm + stepRPM ps) n"
  unfolding sweptSpeeds_def
  by (simp add: upt_conv_Cons map_Suc_upt[symmetric] algebra_simps del: upt_Suc)

lemma sweep_shape:
  "\<exists>n. points (sweep ps rpm st) = points st @ map (simPoint ps) (sweptSpeeds ps rpm n)
       \<and> (rpm \<le> maxSpeed ps \<longrightarrow> 0 < n)
       \<and> (\<forall>k. Suc k < n \<longrightarrow> \<not> collapsed (simPoint ps (rpm + real k * stepRPM ps)))"
proof (induction ps rpm st rule: sweep.induct)
  case (1 ps rpm st)
  show ?case
  proof (cases "rpm \<le> maxSpeed ps")
    case False
    then have "sweep ps rpm st = st" by (subst sweep.simps) simp
    then show ?thesis using False
      by (intro exI[of _ 0]) (simp add: sweptSpeeds_def)
  next
    case le: True
    show ?thesis
    proof (cases "collapsed (simPoint ps rpm)")
      case True
      then have "sweep ps rpm st = sweepBody ps rpm st"
        using le by (subst sweep.simps) simp
      then show ?thesis
        by (intro exI[of _ 1]) (simp add: sweptSpeeds_def)
    next
      case False
      then have eq: "sweep ps rpm st = sweep ps (rpm + stepRPM ps) (sweepBody ps rpm st)"
        using le by (subst sweep.simps) (simp add: Let_def)
      from "1.IH"[OF le refl False] obtain n where
        n: "points (sweep ps (rpm + stepRPM ps) (sweepBody ps rpm st)) =
              points (sweepBody ps rpm st) @ map (simPoint ps) (sweptSpeeds ps (rpm + stepRPM ps) n)"
           "\<forall>k. Suc k < n \<longrightarrow> \<not> collapsed (simPoint ps (rpm + stepRPM ps + real k * stepRPM ps))"
        by blast
      have "\<forall>k. Suc k < Suc n \<longrightarrow> \<not> collapsed (simPoint ps (rpm + real k * stepRPM ps))"
      proof (intro allI impI)
        fix k assume "Suc k < Suc n"
        show "\<not> collapsed (simPoint ps (rpm + real k * stepRPM ps))"
        proof (cases k)
          case 0 then show ?thesis using False by simp
        next
          case (Suc j)
          then have "Suc j < n" using \<open>Suc k < Suc n\<close> by simp
          then show ?thesis using n(2) Suc by (simp add: algebra_simps)
        qed
      qed
      then show ?thesis using n(1) eq
        by (intro exI[of _ "Suc n"]) (simp add: sweptSpeeds_Suc)
    qed
  qed
qed

lemma calc_points_shape:
  "\<exists>n. points (calculateMotorCharacteristics ps) = map (simPoint ps) (sweptSpeeds ps 0 n)
       \<and> (0 \<le> maxSpeed ps \<longrightarrow> 0 < n)
       \<and> (\<forall>k. Suc k < n \<longrightarrow> \<not> collapsed (simPoint ps (real k * stepRPM ps)))"
  using sweep_shape[of ps 0 "\<lparr>points = [], maxTorque = snd (basePoint ps), baseSpeed = 0, maxPower = 0,
                 baseSpeedFound = False\<rparr>"]
  by (simp add: calculateMotorCharacteristics_def Let_def)

lemma calc_points_simPoint:
  assumes "pt \<in> set (points (calculateMotorCharacteristics ps))"
  shows "pt = simPoint ps (speedRPM pt)"
proof -
  from calc_points_shape[of ps] obtain n where
    "points (calculateMotorCharacteristics ps) = map (simPoint ps) (sweptSpeeds ps 0 n)" by blast
  with assms obtain r where "pt = simPoint ps r" by auto
  then show ?thesis by simp
qed

lemma calc_points_nth:
  assumes "i < length (points (calculateMotorCharacteristics ps))"
  shows "points (calculateMotorCharacteristics ps) ! i = simPoint ps (real i * stepRPM ps)"
proof -
  from calc_points_shape[of ps] obtain n where
    n: "points (calculateMotorCharacteristics ps) = map (simPoint ps) (sweptSpeeds ps 0 n)" by blast
  then show ?thesis using assms by (simp add: sweptSpeeds_def)
qed

lemma calc_points_nonempty:
  "0 \<le> maxSpeed ps \<Longrightarrow> points (calculateMotorCharacteristics ps) \<noteq> []"
  using calc_points_shape[of ps] by (auto simp add: sweptSpeeds_def)

lemma sweep_length_mono: "length (points st) \<le> length (points (sweep ps rpm st))"
  using sweep_shape[of ps rpm st] by auto

lemma calc_two_points:
  assumes "stepRPM ps \<le> maxSpeed ps"
  shows "1 < length (points (calculateMotorCharacteristics ps))"
proof -
  let ?st0 = "\<lparr>points = [], maxTorque = snd (basePoint ps), baseSpeed = 0, maxPower = 0,
                 baseSpeedFound = False\<rparr>"
  have le0: "0 \<le> maxSpeed ps" using assms stepRPM_pos[of ps] by linarith
  have nc: "\<not> collapsed (simPoint ps 0)" by (simp add: collapsed_def)
  have "sweep ps 0 ?st0 = sweep ps (stepRPM ps) (sweepBody ps 0 ?st0)"
    using le0 nc by (subst sweep.simps) (simp add: Let_def)
  also have "\<dots> = (let st' = sweepBody ps (stepRPM ps) (sweepBody ps 0 ?st0)
         in if collapsed (simPoint ps (stepRPM ps)) then st'
            else sweep ps (stepRPM ps + stepRPM ps) st')"
    using assms by (subst sweep.simps) simp
  finally have "2 \<le> length (points (sweep ps 0 ?st0))"
    using sweep_length_mono[of "sweepBody ps (stepRPM ps) (sweepBody ps 0 ?st0)" ps "stepRPM ps + stepRPM ps"]
    by (simp add: Let_def split: if_splits)
  then show ?thesis by (simp add: calculateMotorCharacteristics_def Let_def)
qed

subsection \<open>A motor without current\<close>

lemma magSearch_zero:
  "\<exists>lo hi b'. magSearch ps omega n (0, 0, 0, 0, b) = (lo, hi, 0, 0, b')"
proof (induction n arbitrary: b)
  case 0 show ?case by simp
next
  case (Suc n)
  show ?case using Suc.IH by (simp add: Let_def)
qed

lemma operatingPoint_imax0:
  assumes "imax ps = 0"
  shows "fst (operatingPoint ps rpm) = 0 \<and> fst (snd (operatingPoint ps rpm)) = 0"
proof -
  obtain lo hi b' where m: "magSearch ps (omegaOf ps rpm) 15 (0, 0, 0, 0, 0) = (lo, hi, 0, 0, b')"
    using magSearch_zero by blast
  show ?thesis
    using assms m
    by (simp add: operatingPoint_def Let_def id_base_def iq_base_def split: prod.split)
qed

lemma simPoint_torque_imax0: "imax ps = 0 \<Longrightarrow> torque (simPoint ps rpm) = 0"
  using operatingPoint_imax0[of ps rpm]
  by (simp add: simPoint_torque simPoint_currents)

subsection \<open>Base speed\<close>

lemma find_snoc:
  "find P (xs @ [x]) = (case find P xs of None \<Rightarrow> (if P x then Some x else None) | Some y \<Rightarrow> Some y)"
  by (induction xs) auto

lemma baseSpeedInv_step: "baseSpeedInv ps st \<Longrightarrow> baseSpeedInv ps (sweepBody ps rpm st)"
  by (auto simp add: baseSpeedInv_def find_snoc split: option.splits)

lemma baseSpeedInv_sweep:
  assumes "baseSpeedInv ps st" shows "baseSpeedInv ps (sweep ps rpm st)"
  using sweep_invariant[of "\<lambda>r s. baseSpeedInv ps s" rpm st ps] assms baseSpeedInv_step
  by blast

lemma sweep_extent:
  "\<exists>n. points (sweep ps rpm st) = points st @ map (simPoint ps) (sweptSpeeds ps rpm n)
       \<and> (\<forall>k<n. rpm + real k * stepRPM ps \<le> maxSpeed ps)
       \<and> (\<forall>k. Suc k < n \<longrightarrow> \<not> collapsed (simPoint ps (rpm + real k * stepRPM ps)))
       \<and> (rpm + real n * stepRPM ps \<le> maxSpeed ps \<longrightarrow>
             0 < n \<and> collapsed (simPoint ps (rpm + real (n - 1) * stepRPM ps)))"
proof (induction ps rpm st rule: sweep.induct)
  case (1 ps rpm st)
  show ?case
  proof (cases "rpm \<le> maxSpeed ps")
    case False
    then have "sweep ps rpm st = st" by (subst sweep.simps) simp
    then show ?thesis using False
      by (intro exI[of _ 0]) (simp add: sweptSpeeds_def)
  next
    case le: True
    show ?thesis
    proof (cases "collapsed (simPoint ps rpm)")
      case True
      then have "sweep ps rpm st = sweepBody ps rpm st"
        using le by (subst sweep.simps) simp
      then show ?thesis using le True
        by (intro exI[of _ 1]) (simp add: sweptSpeeds_def)
    next
      case False
      then have eq: "sweep ps rpm st = sweep ps (rpm + stepRPM ps) (sweepBody ps rpm st)"
        using le by (subst sweep.simps) (simp add: Let_def)
      from "1.IH"[OF le refl False] obtain n where
        n: "points (sweep ps (rpm + stepRPM ps) (sweepBody ps rpm st)) =
              points (sweepBody ps rpm st) @ map (simPoint ps) (sweptSpeeds ps (rpm + stepRPM ps) n)"
           "\<forall>k<n. rpm + stepRPM ps + real k * stepRPM ps \<le> maxSpeed ps"
           "\<forall>k. Suc k < n \<longrightarrow> \<not> collapsed (simPoint ps (rpm + stepRPM ps + real k * stepRPM ps))"
           "rpm + stepRPM ps + real n * stepRPM ps \<le> maxSpeed ps \<longrightarrow>
              0 < n \<and> collapsed (simPoint ps (rpm + stepRPM ps + real (n - 1) * stepRPM ps))"
        by blast
      have shift: "\<And>j. rpm + real (Suc j) * stepRPM ps = rpm + stepRPM ps + real j * stepRPM ps"
        by (simp add: algebra_simps)
      have a: "\<forall>k<Suc n. rpm + real k * stepRPM ps \<le> maxSpeed ps"
      proof (intro allI impI)
        fix k assume k: "k < Suc n"
        show "rpm + real k * stepRPM ps \<le> maxSpeed ps"
        proof (cases k)
          case 0 then show ?thesis using le by simp
        next
          case (Suc j)
          then have "j < n" using k by simp
          then show ?thesis using n(2) unfolding Suc shift by blast
        qed
      qed
      have b: "\<forall>k. Suc k < Suc n \<longrightarrow> \<not> collapsed (simPoint ps (rpm + real k * stepRPM ps))"
      proof (intro allI impI)
        fix k assume k: "Suc k < Suc n"
        show "\<not> collapsed (simPoint ps (rpm + real k * stepRPM ps))"
        proof (cases k)
          case 0 then show ?thesis using False by simp
        next
          case (Suc j)
          then have "Suc j < n" using k by simp
          then show ?thesis using n(3) unfolding Suc shift by blast
        qed
      qed
      have c: "rpm + real (Suc n) * stepRPM ps \<le> maxSpeed ps \<longrightarrow>
             0 < Suc n \<and> collapsed (simPoint ps (rpm + real (Suc n - 1) * stepRPM ps))"
      proof
        assume "rpm + real (Suc n) * stepRPM ps \<le> maxSpeed ps"
        then have "rpm + stepRPM ps + real n * stepRPM ps \<le> maxSpeed ps" unfolding shift .
        with n(4) have pos: "0 < n"
          and col: "collapsed (simPoint ps (rpm + stepRPM ps + real (n - 1) * stepRPM ps))"
          by blast+
        from pos obtain m where m: "n = Suc m" by (cases n) auto
        have "collapsed (simPoint ps (rpm + real (Suc m) * stepRPM ps))"
          using col unfolding shift m by simp
        then show "0 < Suc n \<and> collapsed (simPoint ps (rpm + real (Suc n - 1) * stepRPM ps))"
          by (simp add: m)
      qed
      show ?thesis using n(1) eq a b c
        by (intro exI[of _ "Suc n"]) (simp add: sweptSpeeds_Suc)
    qed
  qed
qed

lemma calc_extent:
  "points (calculateMotorCharacteristics ps) =
     map (simPoint ps) (sweptSpeeds ps 0 (length (points (calculateMotorCharacteristics ps))))
   \<and> (\<forall>k. k < length (points (calculateMotorCharacteristics ps)) \<longleftrightarrow> reached ps k)"
proof -
  let ?st0 = "\<lparr>points = [], maxTorque = snd (basePoint ps), baseSpeed = 0, maxPower = 0,
                 baseSpeedFound = False\<rparr>"
  from sweep_extent[of ps 0 ?st0] obtain n where
    n: "points (calculateMotorCharacteristics ps) = map (simPoint ps) (sweptSpeeds ps 0 n)"
       "\<forall>k<n. real k * stepRPM ps \<le> maxSpeed ps"
       "\<forall>k. Suc k < n \<longrightarrow> \<not> collapsed (simPoint ps (real k * stepRPM ps))"
       "real n * stepRPM ps \<le> maxSpeed ps \<longrightarrow>
             0 < n \<and> collapsed (simPoint ps (real (n - 1) * stepRPM ps))"
    by (auto simp add: calculateMotorCharacteristics_def Let_def)
  have len: "length (points (calculateMotorCharacteristics ps)) = n"
    by (simp add: n(1) sweptSpeeds_def)
  have pos: "0 < stepRPM ps" by (rule stepRPM_pos)
  have "k < n \<longleftrightarrow> reached ps k" for k
  proof
    assume k: "k < n"
    then have "real k * stepRPM ps \<le> maxSpeed ps" using n(2) by blast
    moreover have "\<forall>j<k. \<not> collapsed (simPoint ps (real j * stepRPM ps))"
    proof (intro allI impI)
      fix j assume "j < k"
      then have "Suc j < n" using k by simp
      then show "\<not> collapsed (simPoint ps (real j * stepRPM ps))" using n(3) by blast
    qed
    ultimately show "reached ps k" by (simp add: reached_def)
  next
    assume r: "reached ps k"
    show "k < n"
    proof (rule ccontr)
      assume "\<not> k < n"
      then have nk: "n \<le> k" by simp
      then have "real n * stepRPM ps \<le> real k * stepRPM ps"
        using pos by (intro mult_right_mono) simp_all
      then have "real n * stepRPM ps \<le> maxSpeed ps" using r by (simp add: reached_def)
      with n(4) have "0 < n" and col: "collapsed (simPoint ps (real (n - 1) * stepRPM ps))"
        by blast+
      then have "n - 1 < k" using nk by simp
      then show False using r col by (simp add: reached_def)
    qed
  qed
  then show ?thesis using n(1) len by simp
qed

lemma find_first_index:
  assumes "k < n" and "P (f k)" and "\<forall>j<k. \<not> P (f j)"
  shows "find P (map f [0..<n]) = Some (f k)"
  unfolding find_Some_iff using assms by (intro exI[of _ k]) auto

lemma calc_baseSpeed_found:
  assumes "k < length (points (calculateMotorCharacteristics ps))"
    and "\<forall>j<k. \<not> baseInfeasible ps (real j * stepRPM ps)"
    and "baseInfeasible ps (real k * stepRPM ps)"
  shows "baseSpeed (calculateMotorCharacteristics ps) = max 0 (real k * stepRPM ps - stepRPM ps)"
proof -
  let ?n = "length (points (calculateMotorCharacteristics ps))"
  let ?st0 = "\<lparr>points = [], maxTorque = snd (basePoint ps), baseSpeed = 0, maxPower = 0,
                 baseSpeedFound = False\<rparr>"
  have sp: "map speedRPM (points (calculateMotorCharacteristics ps))
              = map (\<lambda>k. real k * stepRPM ps) [0..<?n]"
    by (subst calc_extent[THEN conjunct1]) (simp add: sweptSpeeds_def comp_def)
  have f: "find (baseInfeasible ps) (map speedRPM (points (calculateMotorCharacteristics ps)))
             = Some (real k * stepRPM ps)"
    unfolding sp using assms by (intro find_first_index) simp_all
  have "baseSpeedInv ps ?st0" by (simp add: baseSpeedInv_def)
  then have "baseSpeedInv ps (sweep ps 0 ?st0)" by (rule baseSpeedInv_sweep)
  then show ?thesis using f
    by (simp add: baseSpeedInv_def calculateMotorCharacteristics_def Let_def)
qed

lemma calc_baseSpeed_none:
  assumes "\<forall>k < length (points (calculateMotorCharacteristics ps)).
             \<not> baseInfeasible ps (real k * stepRPM ps)"
  shows "baseSpeed (calculateMotorCharacteristics ps) = 0"
proof -
  let ?n = "length (points (calculateMotorCharacteristics ps))"
  let ?st0 = "\<lparr>points = [], maxTorque = snd (basePoint ps), baseSpeed = 0, maxPower = 0,
                 baseSpeedFound = False\<rparr>"
  have sp: "map speedRPM (points (calculateMotorCharacteristics ps))
              = map (\<lambda>k. real k * stepRPM ps) [0..<?n]"
    by (subst calc_extent[THEN conjunct1]) (simp add: sweptSpeeds_def comp_def)
  have f: "find (baseInfeasible ps) (map speedRPM (points (calculateMotorCharacteristics ps))) = None"
    unfolding sp find_None_iff using assms by auto
  have "baseSpeedInv ps ?st0" by (simp add: baseSpeedInv_def)
  then have "baseSpeedInv ps (sweep ps 0 ?st0)" by (rule baseSpeedInv_sweep)
  then show ?thesis using f
    by (simp add: baseSpeedInv_def calculateMotorCharacteristics_def Let_def)
qed

subsection \<open>The base operating point\<close>

lemma sweep_maxTorque [simp]: "maxTorque (sweep ps rpm st) = maxTorque st"
  using sweep_invariant[of "\<lambda>r s. maxTorque s = maxTorque st" rpm st ps] by simp

lemma calc_maxTorque: "maxTorque (calculateMotorCharacteristics ps) = snd (basePoint ps)"
  by (simp add: calculateMotorCharacteristics_def Let_def)

lemma mtpaScan_step:
  "b \<le> 90 \<Longrightarrow> mtpaScan ps b (beta, m) =
     mtpaScan ps (b + 0.5)
       (if getTorque ps (imax ps) ((b * pi) / 180) > m
        then ((b * pi) / 180, getTorque ps (imax ps) ((b * pi) / 180)) else (beta, m))"
  by (subst mtpaScan.simps) (simp add: Let_def)

lemma mtpaScan_stop: "\<not> b \<le> 90 \<Longrightarrow> mtpaScan ps b acc = acc"
  by (cases acc) (simp add: mtpaScan.simps)

lemma mtpaScan_torque:
  "snd acc = getTorque ps (imax ps) (fst acc) \<Longrightarrow>
   snd (mtpaScan ps b acc) = getTorque ps (imax ps) (fst (mtpaScan ps b acc))"
proof (induction ps b acc rule: mtpaScan.induct)
  case (1 ps b betaStart maxT_static)
  show ?case
  proof (cases "b \<le> 90")
    case False
    then show ?thesis using "1.prems" by (simp add: mtpaScan_stop)
  next
    case True
    show ?thesis
    proof (cases "getTorque ps (imax ps) ((b * pi) / 180) > maxT_static")
      case gt: True
      show ?thesis using "1.IH"(1)[OF True refl refl gt] True gt
        by (simp add: mtpaScan_step)
    next
      case le: False
      show ?thesis using "1.IH"(2)[OF True refl refl le] "1.prems" True le
        by (simp add: mtpaScan_step)
    qed
  qed
qed

lemma mtpaScan_mono: "snd acc \<le> snd (mtpaScan ps b acc)"
proof (induction ps b acc rule: mtpaScan.induct)
  case (1 ps b betaStart maxT_static)
  show ?case
  proof (cases "b \<le> 90")
    case False
    then show ?thesis by (simp add: mtpaScan_stop)
  next
    case True
    show ?thesis
    proof (cases "getTorque ps (imax ps) ((b * pi) / 180) > maxT_static")
      case gt: True
      show ?thesis using "1.IH"(1)[OF True refl refl gt] True gt
        by (simp add: mtpaScan_step)
    next
      case le: False
      show ?thesis using "1.IH"(2)[OF True refl refl le] True le
        by (simp add: mtpaScan_step)
    qed
  qed
qed

lemma mtpaScan_upper:
  "b + real j / 2 \<le> 90 \<Longrightarrow>
   getTorque ps (imax ps) (((b + real j / 2) * pi) / 180) \<le> snd (mtpaScan ps b acc)"
proof (induction ps b acc arbitrary: j rule: mtpaScan.induct)
  case (1 ps b betaStart maxT_static)
  have "0 \<le> real j / 2" by simp
  then have le: "b \<le> 90" using "1.prems" by linarith
  let ?t = "getTorque ps (imax ps) ((b * pi) / 180)"
  show ?case
  proof (cases "?t > maxT_static")
    case gt: True
    have step: "mtpaScan ps b (betaStart, maxT_static) = mtpaScan ps (b + 0.5) ((b * pi) / 180, ?t)"
      using le gt by (simp add: mtpaScan_step)
    show ?thesis
    proof (cases j)
      case 0
      have "?t \<le> snd (mtpaScan ps (b + 0.5) ((b * pi) / 180, ?t))"
        using mtpaScan_mono[of "((b * pi) / 180, ?t)" ps "b + 0.5"] by simp
      then show ?thesis using 0 by (simp add: step)
    next
      case (Suc i)
      have r: "b + 0.5 + real i / 2 = b + real j / 2" using Suc by (simp add: field_simps)
      have bound: "b + 0.5 + real i / 2 \<le> 90" unfolding r by (rule "1.prems")
      show ?thesis using "1.IH"(1)[OF le refl refl gt bound] unfolding r step .
    qed
  next
    case ngt: False
    have step: "mtpaScan ps b (betaStart, maxT_static) = mtpaScan ps (b + 0.5) (betaStart, maxT_static)"
      using le ngt by (simp add: mtpaScan_step)
    show ?thesis
    proof (cases j)
      case 0
      have "maxT_static \<le> snd (mtpaScan ps (b + 0.5) (betaStart, maxT_static))"
        using mtpaScan_mono[of "(betaStart, maxT_static)" ps "b + 0.5"] by simp
      then show ?thesis using 0 ngt by (simp add: step)
    next
      case (Suc i)
      have r: "b + 0.5 + real i / 2 = b + real j / 2" using Suc by (simp add: field_simps)
      have bound: "b + 0.5 + real i / 2 \<le> 90" unfolding r by (rule "1.prems")
      show ?thesis using "1.IH"(2)[OF le refl refl ngt bound] unfolding r step .
    qed
  qed
qed

lemma mtpaScan_angle:
  "fst (mtpaScan ps b acc) = fst acc
   \<or> (\<exists>j. b + real j / 2 \<le> 90 \<and> fst (mtpaScan ps b acc) = ((b + real j / 2) * pi) / 180)"
proof (induction ps b acc rule: mtpaScan.induct)
  case (1 ps b betaStart maxT_static)
  show ?case
  proof (cases "b \<le> 90")
    case False
    then show ?thesis by (simp add: mtpaScan_stop)
  next
    case le: True
    let ?t = "getTorque ps (imax ps) ((b * pi) / 180)"
    have shift: "\<And>j. b + 0.5 + real j / 2 = b + real (Suc j) / 2" by (simp add: field_simps)
    have zero: "b = b + real 0 / 2" by simp
    show ?thesis
    proof (cases "?t > maxT_static")
      case gt: True
      have step: "mtpaScan ps b (betaStart, maxT_static) = mtpaScan ps (b + 0.5) ((b * pi) / 180, ?t)"
        using le gt by (simp add: mtpaScan_step)
      from "1.IH"(1)[OF le refl refl gt] show ?thesis
      proof
        assume "fst (mtpaScan ps (b + 5 / 10) (b * pi / 180, ?t)) = fst (b * pi / 180, ?t)"
        then have "fst (mtpaScan ps b (betaStart, maxT_static)) = ((b + real 0 / 2) * pi) / 180"
          using step by simp
        moreover have "b + real 0 / 2 \<le> 90" using le by simp
        ultimately show ?thesis by blast
      next
        assume "\<exists>j. b + 5 / 10 + real j / 2 \<le> 90 \<and>
          fst (mtpaScan ps (b + 5 / 10) (b * pi / 180, ?t)) = (b + 5 / 10 + real j / 2) * pi / 180"
        then obtain j where j: "b + 5 / 10 + real j / 2 \<le> 90"
          "fst (mtpaScan ps (b + 5 / 10) (b * pi / 180, ?t)) = (b + 5 / 10 + real j / 2) * pi / 180"
          by blast
        have "b + real (Suc j) / 2 \<le> 90" using j(1) unfolding shift .
        moreover have "fst (mtpaScan ps b (betaStart, maxT_static)) = ((b + real (Suc j) / 2) * pi) / 180"
          using j(2) unfolding shift step .
        ultimately show ?thesis by blast
      qed
    next
      case ngt: False
      have step: "mtpaScan ps b (betaStart, maxT_static) = mtpaScan ps (b + 0.5) (betaStart, maxT_static)"
        using le ngt by (simp add: mtpaScan_step)
      from "1.IH"(2)[OF le refl refl ngt] show ?thesis
      proof
        assume "fst (mtpaScan ps (b + 5 / 10) (betaStart, maxT_static)) = fst (betaStart, maxT_static)"
        then show ?thesis using step by simp
      next
        assume "\<exists>j. b + 5 / 10 + real j / 2 \<le> 90 \<and>
          fst (mtpaScan ps (b + 5 / 10) (betaStart, maxT_static)) = (b + 5 / 10 + real j / 2) * pi / 180"
        then obtain j where j: "b + 5 / 10 + real j / 2 \<le> 90"
          "fst (mtpaScan ps (b + 5 / 10) (betaStart, maxT_static)) = (b + 5 / 10 + real j / 2) * pi / 180"
          by blast
        have "b + real (Suc j) / 2 \<le> 90" using j(1) unfolding shift .
        moreover have "fst (mtpaScan ps b (betaStart, maxT_static)) = ((b + real (Suc j) / 2) * pi) / 180"
          using j(2) unfolding shift step .
        ultimately show ?thesis by blast
      qed
    qed
  qed
qed

lemma mtpaScan_idle:
  "(\<forall>r. getTorque ps (imax ps) r \<le> snd acc) \<Longrightarrow> mtpaScan ps b acc = acc"
proof (induction ps b acc rule: mtpaScan.induct)
  case (1 ps b betaStart maxT_static)
  show ?case
  proof (cases "b \<le> 90")
    case False
    then show ?thesis by (simp add: mtpaScan_stop)
  next
    case le: True
    have ngt: "\<not> getTorque ps (imax ps) ((b * pi) / 180) > maxT_static"
      using "1.prems" by (simp add: not_less)
    show ?thesis using "1.IH"(2)[OF le refl refl ngt "1.prems"] le ngt
      by (simp add: mtpaScan_step)
  qed
qed

lemma mtpaScan_cong:
  "(\<forall>r. getTorque ps (imax ps) r = getTorque ps' (imax ps') r) \<Longrightarrow>
   mtpaScan ps b acc = mtpaScan ps' b acc"
proof (induction ps b acc rule: mtpaScan.induct)
  case (1 ps b betaStart maxT_static)
  show ?case
  proof (cases "b \<le> 90")
    case False
    then show ?thesis by (simp add: mtpaScan_stop)
  next
    case le: True
    let ?t = "getTorque ps (imax ps) ((b * pi) / 180)"
    have t: "getTorque ps' (imax ps') ((b * pi) / 180) = ?t" using "1.prems" by simp
    show ?thesis
    proof (cases "?t > maxT_static")
      case gt: True
      show ?thesis using "1.IH"(1)[OF le refl refl gt "1.prems"] le gt t
        by (simp add: mtpaScan_step)
    next
      case ngt: False
      show ?thesis using "1.IH"(2)[OF le refl refl ngt "1.prems"] le ngt t
        by (simp add: mtpaScan_step)
    qed
  qed
qed

lemma getTorque_zero_angle: "getTorque ps i 0 = 1.5 * p ps * (psif ps * i)"
  by (simp add: getTorque_def)

lemma basePoint_torque:
  assumes "controlStrategy ps \<noteq> IdZero \<Longrightarrow> 0 \<le> getTorque ps (imax ps) 0"
  shows "snd (basePoint ps) = getTorque ps (imax ps) (fst (basePoint ps))"
proof (cases "controlStrategy ps = IdZero")
  case True
  then show ?thesis by (simp add: basePoint_def)
next
  case False
  let ?t = "getTorque ps (imax ps) 0"
  let ?acc = "if ?t > 0 then (0, ?t) else (0, 0)"
  have step: "mtpaScan ps 0 (0, 0) = mtpaScan ps (0 + 0.5) ?acc"
    using mtpaScan_step[of 0 ps 0 0] by simp
  have "snd ?acc = getTorque ps (imax ps) (fst ?acc)" using assms[OF False] by simp
  then have "snd (mtpaScan ps (0 + 0.5) ?acc) = getTorque ps (imax ps) (fst (mtpaScan ps (0 + 0.5) ?acc))"
    by (rule mtpaScan_torque)
  then show ?thesis using False unfolding basePoint_def step[symmetric] by simp
qed

lemma basePoint_cong:
  assumes "controlStrategy ps' = controlStrategy ps" "imax ps' = imax ps" "p ps' = p ps"
    "psif ps' = psif ps" "ld ps' = ld ps" "lq ps' = lq ps"
  shows "basePoint ps' = basePoint ps"
proof -
  have "\<forall>r. getTorque ps' (imax ps') r = getTorque ps (imax ps) r"
    using assms by (simp add: getTorque_def)
  then show ?thesis
    using mtpaScan_cong[of ps' ps 0 "(0, 0)"] assms(1) by (simp add: basePoint_def)
qed

lemma basePoint_imax0: "imax ps = 0 \<Longrightarrow> basePoint ps = (0, 0)"
proof -
  assume z: "imax ps = 0"
  have "\<forall>r. getTorque ps (imax ps) r \<le> snd (0::real, 0::real)" by (simp add: z getTorque_def)
  then have "mtpaScan ps 0 (0, 0) = (0, 0)" by (rule mtpaScan_idle)
  then show "basePoint ps = (0, 0)" by (simp add: basePoint_def z getTorque_def)
qed


lemma mtpaScan_idle_range:
  assumes "\<forall>b'. b \<le> b' \<and> b' \<le> 90 \<longrightarrow> getTorque ps (imax ps) ((b' * pi) / 180) \<le> snd acc"
  shows "mtpaScan ps b acc = acc"
  using assms
proof (induction ps b acc rule: mtpaScan.induct)
  case (1 ps b betaStart maxT_static)
  show ?case
  proof (cases "b \<le> 90")
    case False
    then show ?thesis by (simp add: mtpaScan_stop)
  next
    case le: True
    have ngt: "\<not> getTorque ps (imax ps) ((b * pi) / 180) > maxT_static"
      using "1.prems" le by (simp add: not_less)
    have "\<forall>b'. b + 0.5 \<le> b' \<and> b' \<le> 90 \<longrightarrow>
            getTorque ps (imax ps) ((b' * pi) / 180) \<le> snd (betaStart, maxT_static)"
      using "1.prems" by simp
    from "1.IH"(2)[OF le refl refl ngt this] show ?thesis using le ngt
      by (simp add: mtpaScan_step)
  qed
qed

lemma negativeFlux_torque:
  assumes "0 \<le> b" and "b \<le> 90"
  shows "getTorque negativeFluxParams (imax negativeFluxParams) ((b * pi) / 180) \<le> 0"
proof -
  have "0 \<le> cos ((b * pi) / 180)"
  proof (rule cos_ge_zero)
    show "- (pi / 2) \<le> b * pi / 180" using assms(1) by (simp add: field_simps) (smt (verit) mult_nonneg_nonneg pi_ge_zero)
    have "b * pi \<le> 90 * pi" using assms(2) by (intro mult_right_mono) simp_all
    then show "b * pi / 180 \<le> pi / 2" by simp
  qed
  then show ?thesis
    by (simp add: getTorque_def negativeFluxParams_def DEFAULT_PARAMS_def mult_nonneg_nonneg)
qed

lemma negativeFlux_base: "basePoint negativeFluxParams = (0, 0)"
proof -
  have "\<forall>b'. 0 \<le> b' \<and> b' \<le> 90 \<longrightarrow>
          getTorque negativeFluxParams (imax negativeFluxParams) ((b' * pi) / 180)
            \<le> snd (0::real, 0::real)"
    using negativeFlux_torque by simp
  then have "mtpaScan negativeFluxParams 0 (0, 0) = (0, 0)" by (rule mtpaScan_idle_range)
  then show ?thesis by (simp add: basePoint_def negativeFluxParams_def DEFAULT_PARAMS_def)
qed

subsection \<open>The flux-weakening search\<close>

lemma fwMidpoints_length: "length (fwMidpoints ps omega n low high) = n"
  by (induction n arbitrary: low high) (simp_all add: Let_def)

lemma fwSearch_found:
  "snd (snd (snd (fwSearch ps omega n (low, high, optimalB, foundSolution)))) =
     (foundSolution \<or> (\<exists>m \<in> set (fwMidpoints ps omega n low high).
        getVoltageMag ps omega (- imax ps * sin m) (imax ps * cos m) \<le> vLim ps))"
proof (induction n arbitrary: low high optimalB foundSolution)
  case 0
  show ?case by simp
next
  case (Suc n)
  show ?case by (simp add: Let_def Suc.IH)
qed

lemma getVoltageMag_zero_currents: "getVoltageMag ps omega 0 0 = \<bar>omega * psif ps\<bar>"
  by (simp add: getVoltageMag_def)

lemma operatingPoint_fallback:
  assumes "enableFluxWeakening ps" and "baseInfeasible ps rpm"
    and "\<not> snd (snd (snd (fwSearch ps (omegaOf ps rpm) 20 (fst (basePoint ps), pi / 2, pi / 2, False))))"
  shows "operatingPoint ps rpm = (0, 0, fst (basePoint ps))"
proof -
  obtain low high optimalB foundSolution where
    r: "fwSearch ps (omegaOf ps rpm) 20 (fst (basePoint ps), pi / 2, pi / 2, False)
          = (low, high, optimalB, foundSolution)"
    by (metis prod_cases4)
  then have "\<not> foundSolution" using assms(3) by simp
  then show ?thesis using assms(1,2) r by (simp add: operatingPoint_def Let_def)
qed

lemma fwSearch_imax0:
  assumes "imax ps = 0" and "\<not> getVoltageMag ps omega 0 0 \<le> vLim ps"
  shows "snd (snd (snd (fwSearch ps omega n (low, high, optimalB, foundSolution)))) = foundSolution"
  using assms by (induction n arbitrary: low) (simp_all add: Let_def)

lemma fwSearch_bracket:
  assumes "low < high"
  shows "case fwSearch ps omega n (low, high, optimalB, foundSolution) of
           (lo', hi', ob', f') \<Rightarrow>
             low \<le> lo' \<and> lo' < hi' \<and> hi' \<le> high
             \<and> (f' \<longrightarrow> (foundSolution \<and> ob' = optimalB) \<or> (low < ob' \<and> ob' < high))"
  using assms
proof (induction n arbitrary: low high optimalB foundSolution)
  case 0
  then show ?case by simp
next
  case (Suc n)
  let ?mid = "(low + high) / 2"
  have m: "low < ?mid" "?mid < high" using Suc.prems by simp_all
  show ?case
  proof (cases "getVoltageMag ps omega (- imax ps * sin ?mid) (imax ps * cos ?mid) \<le> vLim ps")
    case True
    then have eq: "fwSearch ps omega (Suc n) (low, high, optimalB, foundSolution)
                 = fwSearch ps omega n (low, ?mid, ?mid, True)" by (simp add: Let_def)
    show ?thesis using Suc.IH[where low = low and high = ?mid and optimalB = ?mid and foundSolution = True, OF m(1)] m unfolding eq
      by (auto split: prod.splits)
  next
    case False
    then have eq: "fwSearch ps omega (Suc n) (low, high, optimalB, foundSolution)
                 = fwSearch ps omega n (?mid, high, optimalB, foundSolution)" by (simp add: Let_def)
    show ?thesis using Suc.IH[where low = ?mid and high = high and optimalB = optimalB and foundSolution = foundSolution, OF m(2)] m unfolding eq
      by (auto split: prod.splits)
  qed
qed

lemma operatingPoint_weakened:
  assumes "enableFluxWeakening ps" and "baseInfeasible ps rpm"
    and "fst (basePoint ps) = 0" and "0 < imax ps"
    and "getVoltageMag ps (omegaOf ps rpm) (- imax ps * sin (pi / 4)) (imax ps * cos (pi / 4))
           \<le> vLim ps"
  shows "fst (operatingPoint ps rpm) < 0"
proof -
  obtain lo hi ob f where
    r: "fwSearch ps (omegaOf ps rpm) 20 (0, pi / 2, pi / 2, False) = (lo, hi, ob, f)"
    by (metis prod_cases4)
  have "(0 + pi / 2) / 2 \<in> set (fwMidpoints ps (omegaOf ps rpm) 20 0 (pi / 2))"
    by (simp add: eval_nat_numeral Let_def)
  then have "\<exists>m \<in> set (fwMidpoints ps (omegaOf ps rpm) 20 0 (pi / 2)).
        getVoltageMag ps (omegaOf ps rpm) (- imax ps * sin m) (imax ps * cos m) \<le> vLim ps"
    using assms(5) by (intro bexI[of _ "(0 + pi / 2) / 2"]) simp_all
  then have "snd (snd (snd (fwSearch ps (omegaOf ps rpm) 20 (0, pi / 2, pi / 2, False))))"
    by (simp only: fwSearch_found simp_thms)
  then have f: "f" by (simp add: r)
  have "(0::real) < pi / 2" by simp
  from fwSearch_bracket[where low = 0 and high = "pi / 2" and ps = ps and omega = "omegaOf ps rpm"
        and n = 20 and optimalB = "pi / 2" and foundSolution = False, OF this]
  have ob: "0 < ob" "ob < pi / 2" using f by (simp_all add: r)
  then have "0 < sin ob" by (intro sin_gt_zero) (use pi_gt_zero in linarith)+
  then have "- imax ps * sin ob < 0" using assms(4) by (simp add: mult_pos_pos)
  moreover have "operatingPoint ps rpm = (- imax ps * sin ob, imax ps * cos ob, ob)"
    using assms(1,2,3) r f by (simp add: operatingPoint_def Let_def)
  ultimately show ?thesis by simp
qed

subsection \<open>The \<open>Id=0\<close> strategy\<close>

lemma regionInv_step:
  assumes "regionInv ps r s"
  shows "regionInv ps (r + stepRPM ps) (sweepBody ps r s)"
proof -
  have pos: "0 < stepRPM ps" by (rule stepRPM_pos)
  show ?thesis
  proof (cases "baseSpeedFound s")
    case True
    then show ?thesis using assms pos by (auto simp add: regionInv_def)
  next
    case nf: False
    show ?thesis
    proof (cases "baseInfeasible ps r")
      case True
      then show ?thesis using assms pos nf by (auto simp add: regionInv_def)
    next
      case False
      then show ?thesis using assms pos nf by (auto simp add: regionInv_def)
    qed
  qed
qed

lemma calc_regionInv:
  "\<exists>r. regionInv ps r (sweep ps 0 \<lparr>points = [], maxTorque = snd (basePoint ps), baseSpeed = 0,
                                    maxPower = 0, baseSpeedFound = False\<rparr>)"
proof (rule sweep_invariant[of "regionInv ps"])
  show "regionInv ps 0 \<lparr>points = [], maxTorque = snd (basePoint ps), baseSpeed = 0,
                           maxPower = 0, baseSpeedFound = False\<rparr>"
    by (simp add: regionInv_def)
next
  fix r s assume "regionInv ps r s"
  then show "regionInv ps (r + stepRPM ps) (sweepBody ps r s)" by (rule regionInv_step)
qed

lemma calc_baseSpeed_nonneg: "0 \<le> baseSpeed (calculateMotorCharacteristics ps)"
  using calc_regionInv[of ps] by (auto simp add: regionInv_def calculateMotorCharacteristics_def Let_def)

lemma calc_region2_above_base:
  assumes "pt \<in> set (points (calculateMotorCharacteristics ps))"
    and "baseInfeasible ps (speedRPM pt)" and "speedRPM pt \<noteq> 0"
  shows "baseSpeed (calculateMotorCharacteristics ps) < speedRPM pt"
  using calc_regionInv[of ps] assms
  by (auto simp add: regionInv_def calculateMotorCharacteristics_def Let_def)

lemma basePoint_idzero:
  assumes "controlStrategy ps = IdZero"
  shows "fst (basePoint ps) = 0" "id_base ps = 0" "iq_base ps = imax ps"
  using assms by (simp_all add: basePoint_def id_base_def iq_base_def)

lemma magSearch_idzero:
  assumes "controlStrategy ps = IdZero"
  shows "\<exists>lo hi vq. magSearch ps omega n (lowI, highI, 0, validIq, 0) = (lo, hi, 0, vq, 0)"
proof (induction n arbitrary: lowI highI validIq)
  case 0
  show ?case by simp
next
  case (Suc n)
  show ?case using Suc.IH assms by (simp add: Let_def trialBeta_def)
qed

lemma getVoltageMag_standstill:
  "getVoltageMag ps 0 (- (i * sin m)) (i * cos m) = \<bar>rs ps * i\<bar>"
proof -
  have ring: "\<And>r s c :: real. (r * (- (i * s))) * (r * (- (i * s))) + (r * (i * c)) * (r * (i * c))
                 = (r * i) * (r * i) * (c * c + s * s)"
    by (simp add: algebra_simps)
  have "(rs ps * (- (i * sin m))) * (rs ps * (- (i * sin m)))
          + (rs ps * (i * cos m)) * (rs ps * (i * cos m))
        = (rs ps * i) * (rs ps * i) * (cos m * cos m + sin m * sin m)"
    by (rule ring)
  also have "\<dots> = (rs ps * i) * (rs ps * i)" by simp
  finally have "sqrt ((rs ps * (- (i * sin m))) * (rs ps * (- (i * sin m)))
          + (rs ps * (i * cos m)) * (rs ps * (i * cos m))) = \<bar>rs ps * i\<bar>"
    by (simp only: real_sqrt_abs2)
  then show ?thesis by (simp add: getVoltageMag_def)
qed

lemma fwSearch_none:
  assumes "\<forall>m. \<not> getVoltageMag ps omega (- imax ps * sin m) (imax ps * cos m) \<le> vLim ps"
  shows "snd (snd (snd (fwSearch ps omega n (low, high, optimalB, foundSolution)))) = foundSolution"
  using assms by (induction n arbitrary: low) (simp_all add: Let_def)

lemma operatingPoint_idzero_nofw:
  assumes "controlStrategy ps = IdZero" and "\<not> enableFluxWeakening ps"
  shows "operatingPoint ps rpm = (0, fst (snd (operatingPoint ps rpm)), 0)"
proof -
  obtain lo hi vq where "magSearch ps (omegaOf ps rpm) 15 (0, imax ps, 0, 0, 0) = (lo, hi, 0, vq, 0)"
    using magSearch_idzero[OF assms(1)] by blast
  then show ?thesis using assms
    by (simp add: operatingPoint_def Let_def basePoint_idzero)
qed

lemma operatingPoint_idzero_region1:
  assumes "controlStrategy ps = IdZero" and "\<not> baseInfeasible ps rpm"
  shows "operatingPoint ps rpm = (0, imax ps, 0)"
  using assms by (simp add: operatingPoint_def Let_def basePoint_idzero)

lemma operatingPoint_idzero_standstill:
  assumes "controlStrategy ps = IdZero" and "omegaOf ps rpm = 0"
  shows "fst (operatingPoint ps rpm) = 0"
proof (cases "baseInfeasible ps rpm")
  case False
  then show ?thesis using operatingPoint_idzero_region1[OF assms(1)] by simp
next
  case inf: True
  show ?thesis
  proof (cases "enableFluxWeakening ps")
    case False
    then show ?thesis using operatingPoint_idzero_nofw[OF assms(1), of rpm] by (metis fst_conv)
  next
    case fw: True
    have base: "getVoltageMag ps 0 0 (imax ps) = \<bar>rs ps * imax ps\<bar>"
      using getVoltageMag_standstill[of ps "imax ps" 0] by simp
    have "\<forall>m. \<not> getVoltageMag ps (omegaOf ps rpm) (- imax ps * sin m) (imax ps * cos m) \<le> vLim ps"
      using inf base
      by (simp add: baseInfeasible_def basePoint_idzero[OF assms(1)] assms(2) getVoltageMag_standstill)
    then have "\<not> snd (snd (snd (fwSearch ps (omegaOf ps rpm) 20 (fst (basePoint ps), pi / 2, pi / 2, False))))"
      by (simp only: fwSearch_none simp_thms)
    from operatingPoint_fallback[OF fw inf this] show ?thesis by simp
  qed
qed

lemma omegaOf_zero: "omegaOf ps 0 = 0"
  by (simp add: omegaOf_def)

lemma simPoint_idzero_nonzero:
  assumes "controlStrategy ps = IdZero" and "id_axis (simPoint ps rpm) \<noteq> 0"
  shows "enableFluxWeakening ps \<and> baseInfeasible ps rpm \<and> rpm \<noteq> 0"
proof -
  have nz: "fst (operatingPoint ps rpm) \<noteq> 0" using assms(2) by (simp add: simPoint_currents)
  have "enableFluxWeakening ps"
    using nz operatingPoint_idzero_nofw[OF assms(1), of rpm] by (metis fst_conv)
  moreover have "baseInfeasible ps rpm"
    using nz operatingPoint_idzero_region1[OF assms(1), of rpm] by (metis fst_conv)
  moreover have "rpm \<noteq> 0"
    using nz operatingPoint_idzero_standstill[OF assms(1), of rpm] omegaOf_zero by metis
  ultimately show ?thesis by blast
qed


subsection \<open>The concrete motors\<close>

lemma sqrt3_bounds: "17 / 10 < sqrt 3" "sqrt 3 < 2"
  by (rule real_less_rsqrt, simp add: power2_eq_square)
     (rule real_less_lsqrt, simp_all)

lemma sqrt2_bounds: "141 / 100 < sqrt 2" "sqrt 2 < 3 / 2"
  by (rule real_less_rsqrt, simp add: power2_eq_square)
     (rule real_less_lsqrt, simp_all add: power2_eq_square)

lemma fallback_vLim: "vLim fallbackParams < 5 * pi"
proof -
  have "2 * (17 / 10) < pi * sqrt 3"
    using pi_ge_two sqrt3_bounds(1) by (intro mult_le_less_imp_less) simp_all
  then have "18.5 * 0.9 < 5 * pi * sqrt 3" by simp
  then show ?thesis
    by (simp add: vLim_def fallbackParams_def DEFAULT_PARAMS_def field_simps)
qed

lemma fallback_facts:
  "imax fallbackParams = 0" "enableFluxWeakening fallbackParams"
  "omegaOf fallbackParams 10 = 5 * pi" "psif fallbackParams = 1"
  "stepRPM fallbackParams = 10" "maxSpeed fallbackParams = 10"
  by (simp_all add: fallbackParams_def DEFAULT_PARAMS_def omegaOf_def stepRPM_def)

lemma fallback_base: "basePoint fallbackParams = (0, 0)"
  "id_base fallbackParams = 0" "iq_base fallbackParams = 0"
  by (simp_all add: basePoint_imax0 id_base_def iq_base_def fallback_facts)

lemma fallback_vMag: "getVoltageMag fallbackParams (5 * pi) 0 0 = 5 * pi"
  by (simp add: getVoltageMag_zero_currents fallback_facts)

lemma fallback_infeasible: "baseInfeasible fallbackParams 10"
  using fallback_vLim
  by (simp add: baseInfeasible_def fallback_base fallback_facts fallback_vMag)

lemma fallback_not_found:
  "\<not> snd (snd (snd (fwSearch fallbackParams (omegaOf fallbackParams 10) 20
                      (fst (basePoint fallbackParams), pi / 2, pi / 2, False))))"
  using fallback_vLim
  by (subst fwSearch_imax0) (simp_all add: fallback_facts fallback_vMag)

lemma fallback_point:
  "points (calculateMotorCharacteristics fallbackParams) ! 1 = simPoint fallbackParams 10"
proof -
  have "1 < length (points (calculateMotorCharacteristics fallbackParams))"
    by (rule calc_two_points) (simp add: fallback_facts)
  from calc_points_nth[OF this] show ?thesis by (simp add: fallback_facts)
qed

lemma fallback_op: "operatingPoint fallbackParams 10 = (0, 0, 0)"
  using operatingPoint_fallback[OF fallback_facts(2) fallback_infeasible fallback_not_found]
  by (simp add: fallback_base)

lemma weakening_facts:
  "controlStrategy weakeningParams = IdZero" "enableFluxWeakening weakeningParams"
  "imax weakeningParams = 1" "omegaOf weakeningParams 10 = pi"
  "stepRPM weakeningParams = 10" "maxSpeed weakeningParams = 10"
  by (simp_all add: weakeningParams_def omegaOf_def stepRPM_def)

lemma weakening_vLim: "vLim weakeningParams = 3.5 / sqrt 3" "(vLim weakeningParams)\<^sup>2 = 49 / 12"
  "0 \<le> vLim weakeningParams"
  by (simp_all add: vLim_def weakeningParams_def power2_eq_square)

lemma weakening_base_infeasible: "baseInfeasible weakeningParams 10"
proof -
  have "(4::real) \<le> pi * pi" using pi_ge_two by (intro mult_mono[of 2 pi 2 pi, simplified]) simp_all
  then have "(vLim weakeningParams)\<^sup>2 < (- (pi / 2)) * (- (pi / 2)) + pi * pi"
    by (simp add: weakening_vLim(2))
  then have "vLim weakeningParams < sqrt ((- (pi / 2)) * (- (pi / 2)) + pi * pi)"
    by (rule real_less_rsqrt)
  moreover have "getVoltageMag weakeningParams pi 0 1 = sqrt ((- (pi / 2)) * (- (pi / 2)) + pi * pi)"
    by (simp add: getVoltageMag_def weakeningParams_def)
  ultimately show ?thesis
    by (simp add: baseInfeasible_def basePoint_idzero weakening_facts not_le)
qed

lemma weakening_mid_feasible:
  "getVoltageMag weakeningParams (omegaOf weakeningParams 10)
     (- imax weakeningParams * sin (pi / 4)) (imax weakeningParams * cos (pi / 4))
     \<le> vLim weakeningParams"
proof -
  define s where "s = sqrt 2 / 2"
  have s2: "s * s = 1 / 2" by (simp add: s_def)
  have sb: "141 / 200 < s" "s < 3 / 4" using sqrt2_bounds by (simp_all add: s_def)
  let ?vd = "- (pi * (s / 2))" and ?vq = "pi * (1 - s)"
  have "?vd * ?vd + ?vq * ?vq = pi * pi * (s * s / 4 + 1 - 2 * s + s * s)"
    by (simp add: algebra_simps)
  also have "\<dots> = pi * pi * (13 / 8 - 2 * s)" by (simp add: s2)
  finally have sq: "?vd * ?vd + ?vq * ?vq = pi * pi * (13 / 8 - 2 * s)" .
  have pp: "pi * pi \<le> 4 * 4" using pi_less_4 by (intro mult_mono) simp_all
  have c: "0 \<le> 13 / 8 - 2 * s" "13 / 8 - 2 * s \<le> 43 / 200" using sb by simp_all
  have "pi * pi * (13 / 8 - 2 * s) \<le> 4 * 4 * (43 / 200)"
    by (rule mult_mono[OF pp c(2) _ c(1)]) simp
  then have "?vd * ?vd + ?vq * ?vq \<le> (vLim weakeningParams)\<^sup>2"
    by (simp only: sq weakening_vLim(2))
  then have "sqrt (?vd * ?vd + ?vq * ?vq) \<le> vLim weakeningParams"
    using weakening_vLim(3) by (intro real_le_lsqrt)
  moreover have "getVoltageMag weakeningParams pi (- (1 * s)) (1 * s) = sqrt (?vd * ?vd + ?vq * ?vq)"
    by (simp add: getVoltageMag_def weakeningParams_def algebra_simps)
  ultimately show ?thesis
    by (simp add: weakening_facts sin_45 cos_45 s_def)
qed

lemma weakening_point:
  "1 < length (points (calculateMotorCharacteristics weakeningParams))"
  "points (calculateMotorCharacteristics weakeningParams) ! 1 = simPoint weakeningParams 10"
  "points (calculateMotorCharacteristics weakeningParams) ! 0 = simPoint weakeningParams 0"
proof -
  show l: "1 < length (points (calculateMotorCharacteristics weakeningParams))"
    by (rule calc_two_points) (simp add: weakening_facts)
  from calc_points_nth[OF l]
  show "points (calculateMotorCharacteristics weakeningParams) ! 1 = simPoint weakeningParams 10"
    by (simp add: weakening_facts)
  have "0 < length (points (calculateMotorCharacteristics weakeningParams))" using l by linarith
  from calc_points_nth[OF this]
  show "points (calculateMotorCharacteristics weakeningParams) ! 0 = simPoint weakeningParams 0"
    by simp
qed

lemma weakening_id_negative: "id_axis (simPoint weakeningParams 10) < 0"
  using operatingPoint_weakened[OF weakening_facts(2) weakening_base_infeasible _ _ weakening_mid_feasible]
  by (simp add: simPoint_currents basePoint_idzero weakening_facts)

lemma pi_ge_three: "3 \<le> pi"
proof -
  have "sin (pi / 6) \<le> pi / 6" by (rule sin_x_le_x) simp
  then show ?thesis by (simp add: sin_30)
qed

lemma baseSpeedParams_facts:
  "controlStrategy baseSpeedParams = IdZero" "imax baseSpeedParams = 1"
  "stepRPM baseSpeedParams = 10" "maxSpeed baseSpeedParams = 20"
  "omegaOf baseSpeedParams r = r * pi / 10"
  by (simp_all add: baseSpeedParams_def omegaOf_def stepRPM_def)

lemma baseSpeedParams_vMag: "getVoltageMag baseSpeedParams w 0 1 = \<bar>5 * w / 4\<bar>"
proof -
  have "(- (w * (3 / 4))) * (- (w * (3 / 4))) + w * w = (5 * w / 4) * (5 * w / 4)"
    by (simp add: algebra_simps)
  then have "sqrt ((- (w * (3 / 4))) * (- (w * (3 / 4))) + w * w) = \<bar>5 * w / 4\<bar>"
    by (simp only: real_sqrt_abs2)
  then show ?thesis by (simp add: getVoltageMag_def baseSpeedParams_def)
qed

lemma baseSpeedParams_vLim:
  "21 / 4 < (vdc baseSpeedParams / sqrt 3) * voltageUtilization baseSpeedParams"
  "(vdc baseSpeedParams / sqrt 3) * voltageUtilization baseSpeedParams < 31 / 5"
  using sqrt3_bounds by (simp_all add: baseSpeedParams_def field_simps)

lemma baseSpeedParams_feasibility:
  "getVoltageMag baseSpeedParams (omegaOf baseSpeedParams 0)
      (id_base baseSpeedParams) (iq_base baseSpeedParams)
    \<le> (vdc baseSpeedParams / sqrt 3) * voltageUtilization baseSpeedParams"
  "getVoltageMag baseSpeedParams (omegaOf baseSpeedParams 10)
      (id_base baseSpeedParams) (iq_base baseSpeedParams)
    \<le> (vdc baseSpeedParams / sqrt 3) * voltageUtilization baseSpeedParams"
  "getVoltageMag baseSpeedParams (omegaOf baseSpeedParams 20)
      (id_base baseSpeedParams) (iq_base baseSpeedParams)
    > (vdc baseSpeedParams / sqrt 3) * voltageUtilization baseSpeedParams"
proof -
  define L where "L = (vdc baseSpeedParams / sqrt 3) * voltageUtilization baseSpeedParams"
  have L: "21 / 4 < L" "L < 31 / 5" using baseSpeedParams_vLim by (simp_all only: L_def)
  have v: "getVoltageMag baseSpeedParams (omegaOf baseSpeedParams r)
      (id_base baseSpeedParams) (iq_base baseSpeedParams) = \<bar>5 * (r * pi / 10) / 4\<bar>" for r
    using baseSpeedParams_vMag[of "r * pi / 10"]
    by (simp add: basePoint_idzero baseSpeedParams_facts)
  have "\<bar>5 * (0 * pi / 10) / 4\<bar> \<le> L" using L by simp
  then show "getVoltageMag baseSpeedParams (omegaOf baseSpeedParams 0)
      (id_base baseSpeedParams) (iq_base baseSpeedParams)
    \<le> (vdc baseSpeedParams / sqrt 3) * voltageUtilization baseSpeedParams"
    by (simp only: v L_def)
  have "\<bar>5 * (10 * pi / 10) / 4\<bar> = 5 * pi / 4" by simp
  also have "\<dots> \<le> L" using L pi_less_4 by linarith
  finally show "getVoltageMag baseSpeedParams (omegaOf baseSpeedParams 10)
      (id_base baseSpeedParams) (iq_base baseSpeedParams)
    \<le> (vdc baseSpeedParams / sqrt 3) * voltageUtilization baseSpeedParams"
    by (simp only: v L_def)
  have "\<bar>5 * (20 * pi / 10) / 4\<bar> = 5 * pi / 2" by simp
  moreover have "L < 5 * pi / 2" using L pi_ge_three by linarith
  ultimately have "L < \<bar>5 * (20 * pi / 10) / 4\<bar>" by simp
  then show "getVoltageMag baseSpeedParams (omegaOf baseSpeedParams 20)
      (id_base baseSpeedParams) (iq_base baseSpeedParams)
    > (vdc baseSpeedParams / sqrt 3) * voltageUtilization baseSpeedParams"
    by (simp only: v L_def)
qed

lemma collapseParams_facts:
  "imax collapseParams = 0" "stepRPM collapseParams = 50" "maxSpeed collapseParams = 5000"
  "omegaOf collapseParams r = r * pi / 2" "psif collapseParams = 159 / 100000"
  "id_base collapseParams = 0" "iq_base collapseParams = 0"
  by (simp_all add: collapseParams_def DEFAULT_PARAMS_def omegaOf_def stepRPM_def
        id_base_def iq_base_def)

lemma collapseParams_feasible:
  assumes "0 \<le> r" and "r \<le> 150"
  shows "getVoltageMag collapseParams (omegaOf collapseParams r)
           (id_base collapseParams) (iq_base collapseParams)
         \<le> (vdc collapseParams / sqrt 3) * voltageUtilization collapseParams"
proof -
  define L where "L = (vdc collapseParams / sqrt 3) * voltageUtilization collapseParams"
  have "r * pi \<le> 150 * 4" using assms pi_less_4 by (intro mult_mono) simp_all
  moreover have "0 \<le> r * pi" using assms by simp
  ultimately have "\<bar>r * pi / 2 * (159 / 100000)\<bar> \<le> 1" by (simp add: abs_mult)
  moreover have "1 < L"
    using sqrt3_bounds by (simp add: L_def collapseParams_def DEFAULT_PARAMS_def field_simps)
  ultimately have "\<bar>r * pi / 2 * (159 / 100000)\<bar> \<le> L" by linarith
  then show ?thesis
    by (simp only: collapseParams_facts getVoltageMag_zero_currents L_def)
qed







section \<open>The claims\<close>

text \<open>
  C1.  The sweep runs the passes \<open>k = 0, 1, 2, ...\<close> at the speeds \<open>k * stepRPM\<close>,
  \<open>stepRPM = max 10 (ceil (maxSpeed / 100))\<close>, and pushes one point in each: pass \<open>k\<close> is run
  exactly when \<open>k * stepRPM \<le> maxSpeed\<close> and no earlier pass produced a point with
  \<open>speedRPM > 100\<close> and torque below 0.01.  If \<open>k\<close> is the first pass run at which the voltage
  magnitude of the base operating point exceeds \<open>vLim = (vdc / sqrt 3) * voltageUtilization\<close>,
  then \<open>baseSpeed\<close> of the result is \<open>max 0 (k * stepRPM - stepRPM)\<close>; if the base point
  meets \<open>vLim\<close> at every pass run, \<open>baseSpeed\<close> is 0.
\<close>

theorem baseSpeed_first_infeasible:
  "stepRPM ps = max 10 (of_int \<lceil>maxSpeed ps / 100\<rceil>)
   \<and> points (calculateMotorCharacteristics ps) =
        map (simPoint ps)
          (map (\<lambda>k. real k * stepRPM ps) [0..<length (points (calculateMotorCharacteristics ps))])
   \<and> (\<forall>k. k < length (points (calculateMotorCharacteristics ps)) \<longleftrightarrow>
          real k * stepRPM ps \<le> maxSpeed ps
          \<and> (\<forall>j<k. \<not> (real j * stepRPM ps > 100
                        \<and> torque (simPoint ps (real j * stepRPM ps)) < 0.01)))
   \<and> (\<forall>k. k < length (points (calculateMotorCharacteristics ps))
          \<and> (\<forall>j<k. getVoltageMag ps (omegaOf ps (real j * stepRPM ps)) (id_base ps) (iq_base ps)
                       \<le> (vdc ps / sqrt 3) * voltageUtilization ps)
          \<and> getVoltageMag ps (omegaOf ps (real k * stepRPM ps)) (id_base ps) (iq_base ps)
               > (vdc ps / sqrt 3) * voltageUtilization ps
        \<longrightarrow> baseSpeed (calculateMotorCharacteristics ps)
              = max 0 (real k * stepRPM ps - stepRPM ps))
   \<and> ((\<forall>k < length (points (calculateMotorCharacteristics ps)).
          getVoltageMag ps (omegaOf ps (real k * stepRPM ps)) (id_base ps) (iq_base ps)
            \<le> (vdc ps / sqrt 3) * voltageUtilization ps)
        \<longrightarrow> baseSpeed (calculateMotorCharacteristics ps) = 0)"
proof -
  have inf: "baseInfeasible ps r \<longleftrightarrow>
      getVoltageMag ps (omegaOf ps r) (id_base ps) (iq_base ps)
        > (vdc ps / sqrt 3) * voltageUtilization ps" for r
    by (auto simp add: baseInfeasible_def vLim_def)
  have a: "stepRPM ps = max 10 (of_int \<lceil>maxSpeed ps / 100\<rceil>)" by (simp add: stepRPM_def)
  have b: "points (calculateMotorCharacteristics ps) =
        map (simPoint ps)
          (map (\<lambda>k. real k * stepRPM ps) [0..<length (points (calculateMotorCharacteristics ps))])"
    by (subst calc_extent[THEN conjunct1]) (simp add: sweptSpeeds_def)
  have c: "\<forall>k. k < length (points (calculateMotorCharacteristics ps)) \<longleftrightarrow>
          real k * stepRPM ps \<le> maxSpeed ps
          \<and> (\<forall>j<k. \<not> (real j * stepRPM ps > 100
                        \<and> torque (simPoint ps (real j * stepRPM ps)) < 0.01))"
    using calc_extent[of ps, THEN conjunct2] by (simp add: reached_def collapsed_def)
  have d: "\<forall>k. k < length (points (calculateMotorCharacteristics ps))
          \<and> (\<forall>j<k. getVoltageMag ps (omegaOf ps (real j * stepRPM ps)) (id_base ps) (iq_base ps)
                       \<le> (vdc ps / sqrt 3) * voltageUtilization ps)
          \<and> getVoltageMag ps (omegaOf ps (real k * stepRPM ps)) (id_base ps) (iq_base ps)
               > (vdc ps / sqrt 3) * voltageUtilization ps
        \<longrightarrow> baseSpeed (calculateMotorCharacteristics ps)
              = max 0 (real k * stepRPM ps - stepRPM ps)"
  proof (intro allI impI)
    fix k
    assume h: "k < length (points (calculateMotorCharacteristics ps))
          \<and> (\<forall>j<k. getVoltageMag ps (omegaOf ps (real j * stepRPM ps)) (id_base ps) (iq_base ps)
                       \<le> (vdc ps / sqrt 3) * voltageUtilization ps)
          \<and> getVoltageMag ps (omegaOf ps (real k * stepRPM ps)) (id_base ps) (iq_base ps)
               > (vdc ps / sqrt 3) * voltageUtilization ps"
    then have "\<forall>j<k. \<not> baseInfeasible ps (real j * stepRPM ps)"
      and "baseInfeasible ps (real k * stepRPM ps)"
      by (simp_all add: inf not_less)
    with h show "baseSpeed (calculateMotorCharacteristics ps)
              = max 0 (real k * stepRPM ps - stepRPM ps)"
      by (intro calc_baseSpeed_found) simp_all
  qed
  have e: "(\<forall>k < length (points (calculateMotorCharacteristics ps)).
          getVoltageMag ps (omegaOf ps (real k * stepRPM ps)) (id_base ps) (iq_base ps)
            \<le> (vdc ps / sqrt 3) * voltageUtilization ps)
        \<longrightarrow> baseSpeed (calculateMotorCharacteristics ps) = 0"
  proof
    assume "\<forall>k < length (points (calculateMotorCharacteristics ps)).
          getVoltageMag ps (omegaOf ps (real k * stepRPM ps)) (id_base ps) (iq_base ps)
            \<le> (vdc ps / sqrt 3) * voltageUtilization ps"
    then have "\<forall>k < length (points (calculateMotorCharacteristics ps)).
             \<not> baseInfeasible ps (real k * stepRPM ps)"
      by (simp add: inf not_less)
    then show "baseSpeed (calculateMotorCharacteristics ps) = 0" by (rule calc_baseSpeed_none)
  qed
  show ?thesis using a b c d e by blast
qed

theorem baseSpeed_first_infeasible_witness:
  "stepRPM baseSpeedParams = 10
   \<and> length (points (calculateMotorCharacteristics baseSpeedParams)) = 3
   \<and> getVoltageMag baseSpeedParams (omegaOf baseSpeedParams 0)
        (id_base baseSpeedParams) (iq_base baseSpeedParams)
      \<le> (vdc baseSpeedParams / sqrt 3) * voltageUtilization baseSpeedParams
   \<and> getVoltageMag baseSpeedParams (omegaOf baseSpeedParams 10)
        (id_base baseSpeedParams) (iq_base baseSpeedParams)
      \<le> (vdc baseSpeedParams / sqrt 3) * voltageUtilization baseSpeedParams
   \<and> getVoltageMag baseSpeedParams (omegaOf baseSpeedParams 20)
        (id_base baseSpeedParams) (iq_base baseSpeedParams)
      > (vdc baseSpeedParams / sqrt 3) * voltageUtilization baseSpeedParams
   \<and> baseSpeed (calculateMotorCharacteristics baseSpeedParams) = 10
   \<and> stepRPM collapseParams = 50
   \<and> length (points (calculateMotorCharacteristics collapseParams)) = 4
   \<and> baseSpeed (calculateMotorCharacteristics collapseParams) = 0"
proof -
  note t = baseSpeed_first_infeasible [of baseSpeedParams]
  note f = baseSpeedParams_feasibility
  have nc: "\<forall>j<n. \<not> (real j * stepRPM baseSpeedParams > 100
              \<and> torque (simPoint baseSpeedParams (real j * stepRPM baseSpeedParams)) < 0.01)"
    if "n \<le> 3" for n :: nat
  proof (intro allI impI)
    fix j assume "j < n"
    then have "real j \<le> 3" using that by simp
    then show "\<not> (real j * stepRPM baseSpeedParams > 100
              \<and> torque (simPoint baseSpeedParams (real j * stepRPM baseSpeedParams)) < 0.01)"
      by (simp add: baseSpeedParams_facts)
  qed
  have l2: "2 < length (points (calculateMotorCharacteristics baseSpeedParams))"
    using t nc[of 2] by (simp add: baseSpeedParams_facts)
  have l3: "\<not> 3 < length (points (calculateMotorCharacteristics baseSpeedParams))"
    using t by (simp add: baseSpeedParams_facts)
  have len: "length (points (calculateMotorCharacteristics baseSpeedParams)) = 3"
    using l2 l3 by linarith
  have before: "\<forall>j<2. getVoltageMag baseSpeedParams
        (omegaOf baseSpeedParams (real j * stepRPM baseSpeedParams))
        (id_base baseSpeedParams) (iq_base baseSpeedParams)
      \<le> (vdc baseSpeedParams / sqrt 3) * voltageUtilization baseSpeedParams"
  proof (intro allI impI)
    fix j :: nat assume "j < 2"
    then consider "j = 0" | "j = 1" by linarith
    then show "getVoltageMag baseSpeedParams
        (omegaOf baseSpeedParams (real j * stepRPM baseSpeedParams))
        (id_base baseSpeedParams) (iq_base baseSpeedParams)
      \<le> (vdc baseSpeedParams / sqrt 3) * voltageUtilization baseSpeedParams"
      using f(1,2) by cases (simp_all add: baseSpeedParams_facts(3))
  qed
  have at: "getVoltageMag baseSpeedParams
        (omegaOf baseSpeedParams (real 2 * stepRPM baseSpeedParams))
        (id_base baseSpeedParams) (iq_base baseSpeedParams)
      > (vdc baseSpeedParams / sqrt 3) * voltageUtilization baseSpeedParams"
    using f(3) by (simp add: baseSpeedParams_facts(3))
  have "baseSpeed (calculateMotorCharacteristics baseSpeedParams)
          = max 0 (real 2 * stepRPM baseSpeedParams - stepRPM baseSpeedParams)"
    using t l2 before at by blast
  then have bs: "baseSpeed (calculateMotorCharacteristics baseSpeedParams) = 10"
    by (simp add: baseSpeedParams_facts)
  note u = baseSpeed_first_infeasible [of collapseParams]
  have c3: "3 < length (points (calculateMotorCharacteristics collapseParams))"
  proof -
    have "\<forall>j<3. \<not> (real j * stepRPM collapseParams > 100
              \<and> torque (simPoint collapseParams (real j * stepRPM collapseParams)) < 0.01)"
    proof (intro allI impI)
      fix j :: nat assume "j < 3"
      then have "real j \<le> 2" by simp
      then show "\<not> (real j * stepRPM collapseParams > 100
              \<and> torque (simPoint collapseParams (real j * stepRPM collapseParams)) < 0.01)"
        by (simp add: collapseParams_facts)
    qed
    then show ?thesis using u by (simp add: collapseParams_facts)
  qed
  have c4: "\<not> 4 < length (points (calculateMotorCharacteristics collapseParams))"
  proof
    assume "4 < length (points (calculateMotorCharacteristics collapseParams))"
    then have "\<forall>j<4. \<not> (real j * stepRPM collapseParams > 100
              \<and> torque (simPoint collapseParams (real j * stepRPM collapseParams)) < 0.01)"
      using u by blast
    then have "(3::nat) < 4 \<longrightarrow> \<not> (real 3 * stepRPM collapseParams > 100
              \<and> torque (simPoint collapseParams (real 3 * stepRPM collapseParams)) < 0.01)"
      by (rule spec)
    then have "\<not> (real 3 * stepRPM collapseParams > 100
              \<and> torque (simPoint collapseParams (real 3 * stepRPM collapseParams)) < 0.01)"
      by simp
    then show False
      by (simp add: collapseParams_facts simPoint_torque_imax0)
  qed
  have clen: "length (points (calculateMotorCharacteristics collapseParams)) = 4"
    using c3 c4 by linarith
  have "\<forall>k < length (points (calculateMotorCharacteristics collapseParams)).
          getVoltageMag collapseParams (omegaOf collapseParams (real k * stepRPM collapseParams))
            (id_base collapseParams) (iq_base collapseParams)
            \<le> (vdc collapseParams / sqrt 3) * voltageUtilization collapseParams"
  proof (intro allI impI)
    fix k assume "k < length (points (calculateMotorCharacteristics collapseParams))"
    then have "real k \<le> 3" using clen by simp
    then have "0 \<le> real k * stepRPM collapseParams" "real k * stepRPM collapseParams \<le> 150"
      by (simp_all add: collapseParams_facts(2))
    then show "getVoltageMag collapseParams (omegaOf collapseParams (real k * stepRPM collapseParams))
            (id_base collapseParams) (iq_base collapseParams)
            \<le> (vdc collapseParams / sqrt 3) * voltageUtilization collapseParams"
      by (rule collapseParams_feasible)
  qed
  then have cbs: "baseSpeed (calculateMotorCharacteristics collapseParams) = 0"
    using u by blast
  show ?thesis
    using len f bs clen cbs by (simp add: baseSpeedParams_facts(3) collapseParams_facts(2))
qed

text \<open>
  C2, as amended.  In region 2 with flux weakening enabled (the base point is above
  \<open>vLim\<close> at the speed \<open>rpm\<close>), when none of the midpoints tested by the 20 bisection
  steps meets \<open>vLim\<close>, the operating point is \<open>id = 0\<close>, \<open>iq = 0\<close> with the base angle
  kept; torque and power of the pushed point are 0.  There is no error value: the function
  is total and every point of the result is \<open>simPoint\<close> at its own speed.  The voltage
  magnitude of this point is not zero in general: it is the back EMF \<open>\<bar>omega * psif\<bar>\<close>, and
  \<open>voltageIndex\<close> records it against \<open>vLim\<close>.
\<close>

theorem fw_fallback:
  assumes "enableFluxWeakening ps"
    and "getVoltageMag ps (omegaOf ps rpm) (id_base ps) (iq_base ps)
           > (vdc ps / sqrt 3) * voltageUtilization ps"
    and "\<forall>m \<in> set (fwMidpoints ps (omegaOf ps rpm) 20 (fst (basePoint ps)) (pi / 2)).
           getVoltageMag ps (omegaOf ps rpm) (- imax ps * sin m) (imax ps * cos m)
             > (vdc ps / sqrt 3) * voltageUtilization ps"
  shows "length (fwMidpoints ps (omegaOf ps rpm) 20 (fst (basePoint ps)) (pi / 2)) = 20
       \<and> operatingPoint ps rpm = (0, 0, fst (basePoint ps))
       \<and> id_axis (simPoint ps rpm) = 0 \<and> iq (simPoint ps rpm) = 0
       \<and> torque (simPoint ps rpm) = 0 \<and> power_kW (simPoint ps rpm) = 0
       \<and> voltageIndex (simPoint ps rpm)
           = min 1 (\<bar>omegaOf ps rpm * psif ps\<bar> / ((vdc ps / sqrt 3) * voltageUtilization ps))
       \<and> (\<forall>pt \<in> set (points (calculateMotorCharacteristics ps)). pt = simPoint ps (speedRPM pt))"
proof -
  have inf: "baseInfeasible ps rpm" using assms(2) by (simp add: baseInfeasible_def vLim_def)
  have "\<not> (\<exists>m \<in> set (fwMidpoints ps (omegaOf ps rpm) 20 (fst (basePoint ps)) (pi / 2)).
        getVoltageMag ps (omegaOf ps rpm) (- imax ps * sin m) (imax ps * cos m) \<le> vLim ps)"
    using assms(3) by (auto simp add: vLim_def)
  then have nf: "\<not> snd (snd (snd (fwSearch ps (omegaOf ps rpm) 20 (fst (basePoint ps), pi / 2, pi / 2, False))))"
    by (simp only: fwSearch_found simp_thms)
  have op: "operatingPoint ps rpm = (0, 0, fst (basePoint ps))"
    using assms(1) inf nf by (rule operatingPoint_fallback)
  have cur: "id_axis (simPoint ps rpm) = 0" "iq (simPoint ps rpm) = 0"
    by (simp_all add: simPoint_currents op)
  have tq: "torque (simPoint ps rpm) = 0" by (simp add: simPoint_torque cur)
  have pw: "power_kW (simPoint ps rpm) = 0" by (simp add: simPoint_def op Let_def)
  have vi: "voltageIndex (simPoint ps rpm)
           = min 1 (\<bar>omegaOf ps rpm * psif ps\<bar> / ((vdc ps / sqrt 3) * voltageUtilization ps))"
    by (simp only: simPoint_voltageIndex cur getVoltageMag_zero_currents vLim_def)
  have pts: "\<forall>pt \<in> set (points (calculateMotorCharacteristics ps)). pt = simPoint ps (speedRPM pt)"
    using calc_points_simPoint by blast
  have len: "length (fwMidpoints ps (omegaOf ps rpm) 20 (fst (basePoint ps)) (pi / 2)) = 20"
    by (rule fwMidpoints_length)
  show ?thesis using len op cur tq pw vi pts by blast
qed

theorem fw_fallback_witness:
  "enableFluxWeakening fallbackParams
   \<and> getVoltageMag fallbackParams (omegaOf fallbackParams 10)
        (id_base fallbackParams) (iq_base fallbackParams)
       > (vdc fallbackParams / sqrt 3) * voltageUtilization fallbackParams
   \<and> list_all (\<lambda>m. getVoltageMag fallbackParams (omegaOf fallbackParams 10)
                      (- imax fallbackParams * sin m) (imax fallbackParams * cos m)
                     > (vdc fallbackParams / sqrt 3) * voltageUtilization fallbackParams)
        (fwMidpoints fallbackParams (omegaOf fallbackParams 10) 20
           (fst (basePoint fallbackParams)) (pi / 2))
   \<and> fwMidpoints fallbackParams (omegaOf fallbackParams 10) 20
         (fst (basePoint fallbackParams)) (pi / 2) \<noteq> []
   \<and> operatingPoint fallbackParams 10 = (0, 0, fst (basePoint fallbackParams))
   \<and> id_axis (simPoint fallbackParams 10) = 0 \<and> iq (simPoint fallbackParams 10) = 0
   \<and> torque (simPoint fallbackParams 10) = 0
   \<and> points (calculateMotorCharacteristics fallbackParams) ! 1 = simPoint fallbackParams 10"
proof -
  have inf: "getVoltageMag fallbackParams (omegaOf fallbackParams 10)
        (id_base fallbackParams) (iq_base fallbackParams)
       > (vdc fallbackParams / sqrt 3) * voltageUtilization fallbackParams"
    using fallback_infeasible by (simp add: baseInfeasible_def vLim_def)
  have mids: "\<forall>m \<in> set (fwMidpoints fallbackParams (omegaOf fallbackParams 10) 20
                    (fst (basePoint fallbackParams)) (pi / 2)).
           getVoltageMag fallbackParams (omegaOf fallbackParams 10)
              (- imax fallbackParams * sin m) (imax fallbackParams * cos m)
             > (vdc fallbackParams / sqrt 3) * voltageUtilization fallbackParams"
    using fallback_vLim by (simp add: fallback_facts fallback_vMag vLim_def)
  have ne: "fwMidpoints fallbackParams (omegaOf fallbackParams 10) 20
         (fst (basePoint fallbackParams)) (pi / 2) \<noteq> []"
    by (simp add: eval_nat_numeral Let_def)
  have all: "list_all (\<lambda>m. getVoltageMag fallbackParams (omegaOf fallbackParams 10)
                      (- imax fallbackParams * sin m) (imax fallbackParams * cos m)
                     > (vdc fallbackParams / sqrt 3) * voltageUtilization fallbackParams)
        (fwMidpoints fallbackParams (omegaOf fallbackParams 10) 20
           (fst (basePoint fallbackParams)) (pi / 2))"
    using mids by (simp only: list_all_iff)
  show ?thesis
    using fw_fallback [OF fallback_facts(2) inf mids] inf all ne fallback_facts(2) fallback_point
    by blast
qed


text \<open>
  The claim as stated calls the fallback point one of zero voltage.  For \<open>fallbackParams\<close>
  the second point of the result (10 RPM) is a fallback point with \<open>id = iq = 0\<close> and torque
  0, yet its voltage magnitude is \<open>5 * pi\<close> and its \<open>voltageIndex\<close> is 1.
\<close>

theorem fw_fallback_voltage_counterexample:
  "enableFluxWeakening fallbackParams
   \<and> getVoltageMag fallbackParams (omegaOf fallbackParams 10)
        (id_base fallbackParams) (iq_base fallbackParams)
       > (vdc fallbackParams / sqrt 3) * voltageUtilization fallbackParams
   \<and> \<not> snd (snd (snd (fwSearch fallbackParams (omegaOf fallbackParams 10) 20
                         (fst (basePoint fallbackParams), pi / 2, pi / 2, False))))
   \<and> points (calculateMotorCharacteristics fallbackParams) ! 1 = simPoint fallbackParams 10
   \<and> id_axis (points (calculateMotorCharacteristics fallbackParams) ! 1) = 0
   \<and> iq (points (calculateMotorCharacteristics fallbackParams) ! 1) = 0
   \<and> torque (points (calculateMotorCharacteristics fallbackParams) ! 1) = 0
   \<and> getVoltageMag fallbackParams (omegaOf fallbackParams 10)
        (id_axis (points (calculateMotorCharacteristics fallbackParams) ! 1))
        (iq (points (calculateMotorCharacteristics fallbackParams) ! 1)) = 5 * pi
   \<and> voltageIndex (points (calculateMotorCharacteristics fallbackParams) ! 1) = 1"
proof -
  have cur: "id_axis (simPoint fallbackParams 10) = 0" "iq (simPoint fallbackParams 10) = 0"
    by (simp_all add: simPoint_currents fallback_op)
  have tq: "torque (simPoint fallbackParams 10) = 0" by (simp add: simPoint_torque cur)
  have inf: "getVoltageMag fallbackParams (omegaOf fallbackParams 10)
        (id_base fallbackParams) (iq_base fallbackParams)
       > (vdc fallbackParams / sqrt 3) * voltageUtilization fallbackParams"
    using fallback_infeasible by (simp add: baseInfeasible_def vLim_def)
  have vm: "getVoltageMag fallbackParams (omegaOf fallbackParams 10)
        (id_axis (simPoint fallbackParams 10)) (iq (simPoint fallbackParams 10)) = 5 * pi"
    by (simp add: cur fallback_facts fallback_vMag)
  have "0 < vLim fallbackParams"
    by (simp add: vLim_def fallbackParams_def DEFAULT_PARAMS_def)
  then have "1 \<le> 5 * pi / vLim fallbackParams" using fallback_vLim by simp
  then have vi: "voltageIndex (simPoint fallbackParams 10) = 1"
    by (simp add: simPoint_voltageIndex vm)
  show ?thesis
    using fallback_facts(2) inf fallback_not_found fallback_point cur tq vm vi by simp
qed

text \<open>
  C3.  \<open>maxTorque\<close> of the result is
  \<open>1.5 * p * (psif * iq_base + (ld - lq) * id_base * iq_base)\<close> at the base operating point
  \<open>id_base = - imax * sin beta\<close>, \<open>iq_base = imax * cos beta\<close>: under \<open>Id=0\<close> the angle
  \<open>beta\<close> is 0, so \<open>id_base = 0\<close> and \<open>iq_base = imax\<close>; under MTPA \<open>beta\<close> is one of the
  181 scanned angles \<open>k / 2\<close> degrees, \<open>k \<le> 180\<close>, and no scanned angle gives a larger
  torque at magnitude \<open>imax\<close>.  With \<open>imax = 0\<close> the angle is 0 and the torque 0.  The value
  depends on the strategy and on \<open>imax\<close>, \<open>p\<close>, \<open>psif\<close>, \<open>ld\<close>, \<open>lq\<close> only, not on the
  sweep.  This holds for every record under \<open>Id=0\<close>, and under MTPA for every record with
  \<open>p * psif * imax \<ge> 0\<close>, hence for every record within the ranges of the data model
  (\<open>psif > 0\<close>, \<open>p \<ge> 1\<close>, \<open>imax \<ge> 0\<close>).
\<close>

theorem maxTorque_base_point:
  assumes "controlStrategy ps = MTPA \<longrightarrow> 0 \<le> p ps * psif ps * imax ps"
  shows "maxTorque (calculateMotorCharacteristics ps) =
           1.5 * p ps * (psif ps * iq_base ps + (ld ps - lq ps) * id_base ps * iq_base ps)
       \<and> id_base ps = - imax ps * sin (fst (basePoint ps))
       \<and> iq_base ps = imax ps * cos (fst (basePoint ps))
       \<and> (controlStrategy ps = IdZero \<longrightarrow>
            fst (basePoint ps) = 0 \<and> id_base ps = 0 \<and> iq_base ps = imax ps)
       \<and> (controlStrategy ps = MTPA \<longrightarrow>
            (\<exists>k\<le>180. fst (basePoint ps) = ((real k / 2) * pi) / 180)
            \<and> (\<forall>k\<le>180. getTorque ps (imax ps) (((real k / 2) * pi) / 180)
                          \<le> getTorque ps (imax ps) (fst (basePoint ps))))
       \<and> (imax ps = 0 \<longrightarrow> fst (basePoint ps) = 0 \<and> maxTorque (calculateMotorCharacteristics ps) = 0)
       \<and> (\<forall>ps'. controlStrategy ps' = controlStrategy ps \<and> imax ps' = imax ps \<and> p ps' = p ps
                \<and> psif ps' = psif ps \<and> ld ps' = ld ps \<and> lq ps' = lq ps
              \<longrightarrow> maxTorque (calculateMotorCharacteristics ps')
                    = maxTorque (calculateMotorCharacteristics ps))"
proof -
  have t0: "0 \<le> getTorque ps (imax ps) 0" if "controlStrategy ps \<noteq> IdZero"
  proof -
    have "controlStrategy ps = MTPA" using that by (cases "controlStrategy ps") simp_all
    then have "0 \<le> p ps * psif ps * imax ps" using assms by simp
    then show ?thesis by (simp add: getTorque_zero_angle mult.assoc)
  qed
  have tq: "snd (basePoint ps) = getTorque ps (imax ps) (fst (basePoint ps))"
    using t0 by (rule basePoint_torque)
  have c1: "maxTorque (calculateMotorCharacteristics ps) =
           1.5 * p ps * (psif ps * iq_base ps + (ld ps - lq ps) * id_base ps * iq_base ps)"
    unfolding calc_maxTorque tq by (simp add: getTorque_def id_base_def iq_base_def Let_def)
  have c2: "controlStrategy ps = IdZero \<longrightarrow>
            fst (basePoint ps) = 0 \<and> id_base ps = 0 \<and> iq_base ps = imax ps"
    by (simp add: basePoint_def id_base_def iq_base_def)
  have c3: "controlStrategy ps = MTPA \<longrightarrow>
            (\<exists>k\<le>180. fst (basePoint ps) = ((real k / 2) * pi) / 180)
            \<and> (\<forall>k\<le>180. getTorque ps (imax ps) (((real k / 2) * pi) / 180)
                          \<le> getTorque ps (imax ps) (fst (basePoint ps)))"
  proof
    assume m: "controlStrategy ps = MTPA"
    then have bp: "basePoint ps = mtpaScan ps 0 (0, 0)" by (simp add: basePoint_def)
    have a: "\<exists>k\<le>180. fst (basePoint ps) = ((real k / 2) * pi) / 180"
    proof -
      from mtpaScan_angle[of ps 0 "(0, 0)"] show ?thesis
      proof
        assume "fst (mtpaScan ps 0 (0, 0)) = fst (0::real, 0::real)"
        then have "fst (basePoint ps) = ((real 0 / 2) * pi) / 180" by (simp add: bp)
        then show ?thesis by blast
      next
        assume "\<exists>j. 0 + real j / 2 \<le> 90 \<and> fst (mtpaScan ps 0 (0, 0)) = (0 + real j / 2) * pi / 180"
        then obtain j where "0 + real j / 2 \<le> 90"
          "fst (mtpaScan ps 0 (0, 0)) = (0 + real j / 2) * pi / 180" by blast
        then have "j \<le> 180" "fst (basePoint ps) = ((real j / 2) * pi) / 180" by (simp_all add: bp)
        then show ?thesis by blast
      qed
    qed
    have b: "\<forall>k\<le>180. getTorque ps (imax ps) (((real k / 2) * pi) / 180)
                          \<le> getTorque ps (imax ps) (fst (basePoint ps))"
    proof (intro allI impI)
      fix k :: nat assume "k \<le> 180"
      then have "0 + real k / 2 \<le> 90" by simp
      from mtpaScan_upper[OF this, of ps "(0, 0)"]
      have "getTorque ps (imax ps) (((real k / 2) * pi) / 180) \<le> snd (basePoint ps)"
        by (simp add: bp)
      then show "getTorque ps (imax ps) (((real k / 2) * pi) / 180)
                          \<le> getTorque ps (imax ps) (fst (basePoint ps))"
        by (simp only: tq)
    qed
    show "(\<exists>k\<le>180. fst (basePoint ps) = ((real k / 2) * pi) / 180)
            \<and> (\<forall>k\<le>180. getTorque ps (imax ps) (((real k / 2) * pi) / 180)
                          \<le> getTorque ps (imax ps) (fst (basePoint ps)))"
      using a b by blast
  qed
  have c4: "imax ps = 0 \<longrightarrow> fst (basePoint ps) = 0 \<and> maxTorque (calculateMotorCharacteristics ps) = 0"
  proof
    assume z: "imax ps = 0"
    have "\<forall>r. getTorque ps (imax ps) r \<le> snd (0::real, 0::real)" by (simp add: z getTorque_def)
    then have "mtpaScan ps 0 (0, 0) = (0, 0)" by (rule mtpaScan_idle)
    then have "basePoint ps = (0, 0)" by (simp add: basePoint_def z getTorque_def)
    then show "fst (basePoint ps) = 0 \<and> maxTorque (calculateMotorCharacteristics ps) = 0"
      by (simp add: calc_maxTorque)
  qed
  have c5: "\<forall>ps'. controlStrategy ps' = controlStrategy ps \<and> imax ps' = imax ps \<and> p ps' = p ps
                \<and> psif ps' = psif ps \<and> ld ps' = ld ps \<and> lq ps' = lq ps
              \<longrightarrow> maxTorque (calculateMotorCharacteristics ps')
                    = maxTorque (calculateMotorCharacteristics ps)"
  proof (intro allI impI)
    fix ps' :: MotorParams
    assume "controlStrategy ps' = controlStrategy ps \<and> imax ps' = imax ps \<and> p ps' = p ps
                \<and> psif ps' = psif ps \<and> ld ps' = ld ps \<and> lq ps' = lq ps"
    then have "basePoint ps' = basePoint ps" by (intro basePoint_cong) simp_all
    then show "maxTorque (calculateMotorCharacteristics ps')
                    = maxTorque (calculateMotorCharacteristics ps)"
      by (simp only: calc_maxTorque)
  qed
  have c0: "id_base ps = - imax ps * sin (fst (basePoint ps))"
    "iq_base ps = imax ps * cos (fst (basePoint ps))"
    by (simp_all only: id_base_def iq_base_def)
  show ?thesis using c0 c1 c2 c3 c4 c5 by blast
qed

theorem maxTorque_base_point_witness:
  "controlStrategy DEFAULT_PARAMS = MTPA
   \<and> 0 < psif DEFAULT_PARAMS \<and> 1 \<le> p DEFAULT_PARAMS \<and> 0 \<le> imax DEFAULT_PARAMS
   \<and> 0 \<le> p DEFAULT_PARAMS * psif DEFAULT_PARAMS * imax DEFAULT_PARAMS
   \<and> maxTorque (calculateMotorCharacteristics DEFAULT_PARAMS) =
         1.5 * p DEFAULT_PARAMS * (psif DEFAULT_PARAMS * iq_base DEFAULT_PARAMS
            + (ld DEFAULT_PARAMS - lq DEFAULT_PARAMS) * id_base DEFAULT_PARAMS * iq_base DEFAULT_PARAMS)
   \<and> (\<exists>k\<le>180. fst (basePoint DEFAULT_PARAMS) = ((real k / 2) * pi) / 180)
   \<and> (180::nat) \<le> 180
   \<and> getTorque DEFAULT_PARAMS (imax DEFAULT_PARAMS) (((real 180 / 2) * pi) / 180)
         \<le> getTorque DEFAULT_PARAMS (imax DEFAULT_PARAMS) (fst (basePoint DEFAULT_PARAMS))
   \<and> maxTorque (calculateMotorCharacteristics scenarioD)
       = maxTorque (calculateMotorCharacteristics (scenarioD\<lparr>rs := 1, vdc := 48, maxSpeed := 100\<rparr>))
   \<and> controlStrategy scenarioA = IdZero
   \<and> fst (basePoint scenarioA) = 0 \<and> id_base scenarioA = 0 \<and> iq_base scenarioA = imax scenarioA
   \<and> maxTorque (calculateMotorCharacteristics scenarioA) =
         1.5 * p scenarioA * (psif scenarioA * iq_base scenarioA
            + (ld scenarioA - lq scenarioA) * id_base scenarioA * iq_base scenarioA)
   \<and> controlStrategy (negativeFluxParams\<lparr>controlStrategy := IdZero\<rparr>) = IdZero
   \<and> maxTorque (calculateMotorCharacteristics (negativeFluxParams\<lparr>controlStrategy := IdZero\<rparr>))
       = - (93015 / 200000)
   \<and> controlStrategy collapseParams = MTPA \<and> imax collapseParams = 0
   \<and> 0 \<le> p collapseParams * psif collapseParams * imax collapseParams
   \<and> fst (basePoint collapseParams) = 0
   \<and> maxTorque (calculateMotorCharacteristics collapseParams) = 0"
proof -
  have d: "controlStrategy DEFAULT_PARAMS = MTPA"
    "0 < psif DEFAULT_PARAMS" "1 \<le> p DEFAULT_PARAMS" "0 \<le> imax DEFAULT_PARAMS"
    "0 \<le> p DEFAULT_PARAMS * psif DEFAULT_PARAMS * imax DEFAULT_PARAMS"
    by (simp_all add: DEFAULT_PARAMS_def)
  have a: "controlStrategy scenarioA = IdZero"
    by (simp add: scenarioA_def DEFAULT_PARAMS_def)
  have c: "controlStrategy collapseParams = MTPA" "imax collapseParams = 0"
    "0 \<le> p collapseParams * psif collapseParams * imax collapseParams"
    by (simp_all add: collapseParams_def DEFAULT_PARAMS_def)
  let ?e = "scenarioD\<lparr>rs := 1, vdc := 48, maxSpeed := 100\<rparr>"
  have e: "controlStrategy ?e = MTPA \<longrightarrow> 0 \<le> p ?e * psif ?e * imax ?e"
    by (simp add: scenarioD_def DEFAULT_PARAMS_def)
  have "controlStrategy scenarioD = controlStrategy ?e \<and> imax scenarioD = imax ?e
      \<and> p scenarioD = p ?e \<and> psif scenarioD = psif ?e \<and> ld scenarioD = ld ?e
      \<and> lq scenarioD = lq ?e"
    by simp
  then have i: "maxTorque (calculateMotorCharacteristics scenarioD)
       = maxTorque (calculateMotorCharacteristics ?e)"
    using maxTorque_base_point [OF e] by blast
  let ?n = "negativeFluxParams\<lparr>controlStrategy := IdZero\<rparr>"
  have n: "controlStrategy ?n = IdZero" by simp
  then have nh: "controlStrategy ?n = MTPA \<longrightarrow> 0 \<le> p ?n * psif ?n * imax ?n" by simp
  have "maxTorque (calculateMotorCharacteristics ?n) =
          1.5 * p ?n * (psif ?n * iq_base ?n + (ld ?n - lq ?n) * id_base ?n * iq_base ?n)"
    using maxTorque_base_point [OF nh] by blast
  then have nv: "maxTorque (calculateMotorCharacteristics ?n) = - (93015 / 200000)"
    by (simp add: basePoint_idzero[OF n]) (simp add: negativeFluxParams_def DEFAULT_PARAMS_def)
  have ah: "controlStrategy scenarioA = MTPA \<longrightarrow> 0 \<le> p scenarioA * psif scenarioA * imax scenarioA"
    using a by simp
  show ?thesis
    using maxTorque_base_point [of DEFAULT_PARAMS] maxTorque_base_point [OF ah]
      maxTorque_base_point [of collapseParams] d a c i n nv
    by blast
qed

text \<open>
  Outside the data model the condition on \<open>p * psif * imax\<close> cannot be dropped under MTPA.
  The scan starts from \<open>maxT_static = 0\<close> and \<open>betaStart = 0\<close> and replaces them only by a
  larger torque: for \<open>negativeFluxParams\<close> (\<open>psif < 0\<close>) no scanned torque is positive,
  \<open>maxTorque\<close> stays 0 and the base point stays \<open>(0, imax)\<close>, where the torque formula gives
  \<open>-0.465075\<close>.
\<close>

lemma maxTorque_negative_flux:
  "controlStrategy negativeFluxParams = MTPA
   \<and> maxTorque (calculateMotorCharacteristics negativeFluxParams) = 0
   \<and> id_base negativeFluxParams = 0 \<and> iq_base negativeFluxParams = 13
   \<and> 1.5 * p negativeFluxParams
        * (psif negativeFluxParams * iq_base negativeFluxParams
           + (ld negativeFluxParams - lq negativeFluxParams)
             * id_base negativeFluxParams * iq_base negativeFluxParams) = - (93015 / 200000)
   \<and> maxTorque (calculateMotorCharacteristics negativeFluxParams)
       \<noteq> 1.5 * p negativeFluxParams
        * (psif negativeFluxParams * iq_base negativeFluxParams
           + (ld negativeFluxParams - lq negativeFluxParams)
             * id_base negativeFluxParams * iq_base negativeFluxParams)"
proof -
  have b: "id_base negativeFluxParams = 0" "iq_base negativeFluxParams = 13"
    by (simp_all add: id_base_def iq_base_def negativeFlux_base)
       (simp add: negativeFluxParams_def DEFAULT_PARAMS_def)
  have m: "maxTorque (calculateMotorCharacteristics negativeFluxParams) = 0"
    by (simp add: calc_maxTorque negativeFlux_base)
  have f: "1.5 * p negativeFluxParams
        * (psif negativeFluxParams * iq_base negativeFluxParams
           + (ld negativeFluxParams - lq negativeFluxParams)
             * id_base negativeFluxParams * iq_base negativeFluxParams) = - (93015 / 200000)"
    unfolding b by (simp add: negativeFluxParams_def DEFAULT_PARAMS_def)
  have c: "controlStrategy negativeFluxParams = MTPA"
    by (simp add: negativeFluxParams_def DEFAULT_PARAMS_def)
  show ?thesis unfolding f using c m b by simp
qed

text \<open>
  C4.  With flux weakening enabled, \<open>calculateTheoreticalMaxSpeed\<close> is 20000 when
  \<open>imax \<ge> psif / ld\<close>, is 20000 as well when \<open>imax < psif / ld\<close> and the residual flux
  \<open>\<bar>psif - ld * imax\<bar>\<close> is below \<open>1e-9\<close>, and is otherwise the speed \<open>vLim / residualFlux\<close>
  converted to RPM and rounded up to a multiple of 100.  The divisors \<open>ld\<close> and \<open>p\<close> are
  taken non-zero, where the quotients of the model are those of the source.
\<close>

theorem fw_max_speed:
  assumes "enableFluxWeakening ps" and "ld ps \<noteq> 0" and "p ps \<noteq> 0"
  shows "(imax ps \<ge> psif ps / ld ps \<longrightarrow> calculateTheoreticalMaxSpeed ps = 20000)
       \<and> (imax ps < psif ps / ld ps \<and> \<bar>psif ps - ld ps * imax ps\<bar> < 1 / 10 ^ 9
            \<longrightarrow> calculateTheoreticalMaxSpeed ps = 20000)
       \<and> (imax ps < psif ps / ld ps \<and> \<not> \<bar>psif ps - ld ps * imax ps\<bar> < 1 / 10 ^ 9
            \<longrightarrow> calculateTheoreticalMaxSpeed ps =
                  of_int \<lceil>((((vdc ps / sqrt 3) * voltageUtilization ps
                               / \<bar>psif ps - ld ps * imax ps\<bar>) * 60)
                             / (2 * pi * p ps)) / 100\<rceil> * 100)"
proof -
  consider (inf) "imax ps \<ge> psif ps / ld ps"
    | (eps) "\<not> imax ps \<ge> psif ps / ld ps" "\<bar>psif ps - ld ps * imax ps\<bar> < 1 / 10 ^ 9"
    | (fin) "\<not> imax ps \<ge> psif ps / ld ps" "\<not> \<bar>psif ps - ld ps * imax ps\<bar> < 1 / 10 ^ 9"
    by blast
  then show ?thesis
  proof cases
    case inf
    have "calculateTheoreticalMaxSpeed ps = 20000"
      unfolding calculateTheoreticalMaxSpeed_def vLim_def Let_def
      using assms(1) inf by (simp only: if_True if_False simp_thms)
    then show ?thesis using inf by auto
  next
    case eps
    have "calculateTheoreticalMaxSpeed ps = 20000"
      unfolding calculateTheoreticalMaxSpeed_def vLim_def Let_def
      using assms(1) eps by (simp only: if_True if_False simp_thms)
    then show ?thesis using eps by auto
  next
    case fin
    have "calculateTheoreticalMaxSpeed ps =
            of_int \<lceil>((((vdc ps / sqrt 3) * voltageUtilization ps
                               / \<bar>psif ps - ld ps * imax ps\<bar>) * 60)
                             / (2 * pi * p ps)) / 100\<rceil> * 100"
      unfolding calculateTheoreticalMaxSpeed_def vLim_def Let_def
      using assms(1) fin by (simp only: if_True if_False simp_thms)
    then show ?thesis using fin by auto
  qed
qed

theorem fw_max_speed_witness:
  "enableFluxWeakening scenarioD \<and> ld scenarioD \<noteq> 0 \<and> p scenarioD \<noteq> 0
   \<and> imax scenarioD \<ge> psif scenarioD / ld scenarioD
   \<and> calculateTheoreticalMaxSpeed scenarioD = 20000
   \<and> enableFluxWeakening cancelledFluxParams \<and> ld cancelledFluxParams \<noteq> 0
   \<and> p cancelledFluxParams \<noteq> 0
   \<and> imax cancelledFluxParams < psif cancelledFluxParams / ld cancelledFluxParams
   \<and> \<bar>psif cancelledFluxParams - ld cancelledFluxParams * imax cancelledFluxParams\<bar> < 1 / 10 ^ 9
   \<and> calculateTheoreticalMaxSpeed cancelledFluxParams = 20000
   \<and> enableFluxWeakening scenarioB \<and> ld scenarioB \<noteq> 0 \<and> p scenarioB \<noteq> 0
   \<and> imax scenarioB < psif scenarioB / ld scenarioB
   \<and> \<not> \<bar>psif scenarioB - ld scenarioB * imax scenarioB\<bar> < 1 / 10 ^ 9
   \<and> calculateTheoreticalMaxSpeed scenarioB =
         of_int \<lceil>((((vdc scenarioB / sqrt 3) * voltageUtilization scenarioB
                      / \<bar>psif scenarioB - ld scenarioB * imax scenarioB\<bar>) * 60)
                    / (2 * pi * p scenarioB)) / 100\<rceil> * 100"
proof -
  have d: "enableFluxWeakening scenarioD" "ld scenarioD \<noteq> 0" "p scenarioD \<noteq> 0"
    "imax scenarioD \<ge> psif scenarioD / ld scenarioD"
    by (simp_all add: scenarioD_def DEFAULT_PARAMS_def)
  have c: "enableFluxWeakening cancelledFluxParams" "ld cancelledFluxParams \<noteq> 0"
    "p cancelledFluxParams \<noteq> 0"
    "imax cancelledFluxParams < psif cancelledFluxParams / ld cancelledFluxParams"
    "\<bar>psif cancelledFluxParams - ld cancelledFluxParams * imax cancelledFluxParams\<bar> < 1 / 10 ^ 9"
    by (simp_all add: cancelledFluxParams_def DEFAULT_PARAMS_def)
  have b: "enableFluxWeakening scenarioB" "ld scenarioB \<noteq> 0" "p scenarioB \<noteq> 0"
    "imax scenarioB < psif scenarioB / ld scenarioB"
    "\<not> \<bar>psif scenarioB - ld scenarioB * imax scenarioB\<bar> < 1 / 10 ^ 9"
    by (simp_all add: scenarioB_def DEFAULT_PARAMS_def)
  show ?thesis
    using fw_max_speed [OF d(1,2,3)] fw_max_speed [OF c(1,2,3)] fw_max_speed [OF b(1,2,3)] d c b
    by blast
qed

text \<open>
  C5.  With flux weakening disabled, \<open>calculateTheoreticalMaxSpeed\<close> is the no-load speed
  \<open>vLim / psif\<close> converted to RPM and rounded up to a multiple of 100; it is at least that
  speed and less than 100 RPM above it.  The divisors \<open>psif\<close> and \<open>p\<close> are taken non-zero.
\<close>

theorem noload_max_speed:
  assumes "\<not> enableFluxWeakening ps" and "psif ps \<noteq> 0" and "p ps \<noteq> 0"
  shows "calculateTheoreticalMaxSpeed ps =
           of_int \<lceil>(((vdc ps / sqrt 3) * voltageUtilization ps / psif ps) * 60
                      / (2 * pi * p ps)) / 100\<rceil> * 100
         \<and> ((vdc ps / sqrt 3) * voltageUtilization ps / psif ps) * 60 / (2 * pi * p ps)
               \<le> calculateTheoreticalMaxSpeed ps
         \<and> calculateTheoreticalMaxSpeed ps
               < ((vdc ps / sqrt 3) * voltageUtilization ps / psif ps) * 60 / (2 * pi * p ps) + 100"
proof -
  define x where "x = ((vdc ps / sqrt 3) * voltageUtilization ps / psif ps) * 60 / (2 * pi * p ps)"
  have r: "calculateTheoreticalMaxSpeed ps = of_int \<lceil>x / 100\<rceil> * 100"
    unfolding calculateTheoreticalMaxSpeed_def vLim_def x_def Let_def
    using assms(1) by (simp only: if_True simp_thms)
  have "x / 100 \<le> of_int \<lceil>x / 100\<rceil>" by (rule le_of_int_ceiling)
  then have lo: "x \<le> of_int \<lceil>x / 100\<rceil> * 100" by linarith
  have "of_int \<lceil>x / 100\<rceil> < x / 100 + 1" by linarith
  then have hi: "of_int \<lceil>x / 100\<rceil> * 100 < x + 100" by linarith
  show ?thesis using r lo hi unfolding x_def by simp
qed

theorem noload_max_speed_witness:
  "\<not> enableFluxWeakening scenarioA \<and> psif scenarioA \<noteq> 0 \<and> p scenarioA \<noteq> 0
   \<and> calculateTheoreticalMaxSpeed scenarioA =
         of_int \<lceil>(((vdc scenarioA / sqrt 3) * voltageUtilization scenarioA / psif scenarioA) * 60
                    / (2 * pi * p scenarioA)) / 100\<rceil> * 100
   \<and> ((vdc scenarioA / sqrt 3) * voltageUtilization scenarioA / psif scenarioA) * 60
         / (2 * pi * p scenarioA) \<le> calculateTheoreticalMaxSpeed scenarioA
   \<and> calculateTheoreticalMaxSpeed scenarioA
         < ((vdc scenarioA / sqrt 3) * voltageUtilization scenarioA / psif scenarioA) * 60
             / (2 * pi * p scenarioA) + 100"
proof -
  have a: "\<not> enableFluxWeakening scenarioA" "psif scenarioA \<noteq> 0" "p scenarioA \<noteq> 0"
    by (simp_all add: scenarioA_def DEFAULT_PARAMS_def)
  show ?thesis using noload_max_speed [OF a] a by blast
qed

text \<open>
  C6.  When \<open>maxSpeed \<ge> 0\<close> the point sequence is not empty, starts at speed 0, its
  speeds are non-decreasing (indeed strictly increasing), and each point is exactly
  \<open>stepRPM = max 10 (ceil (maxSpeed / 100))\<close> above its predecessor, the last one included.
\<close>

theorem sweep_speeds:
  assumes "0 \<le> maxSpeed ps"
  shows "points (calculateMotorCharacteristics ps) \<noteq> []
       \<and> speedRPM (hd (points (calculateMotorCharacteristics ps))) = 0
       \<and> sorted (map speedRPM (points (calculateMotorCharacteristics ps)))
       \<and> sorted_wrt (<) (map speedRPM (points (calculateMotorCharacteristics ps)))
       \<and> (\<forall>i. Suc i < length (points (calculateMotorCharacteristics ps)) \<longrightarrow>
             speedRPM (points (calculateMotorCharacteristics ps) ! Suc i)
               = speedRPM (points (calculateMotorCharacteristics ps) ! i)
                 + max 10 (of_int \<lceil>maxSpeed ps / 100\<rceil>))"
proof -
  from calc_points_shape[of ps] assms obtain n where
    n: "points (calculateMotorCharacteristics ps) = map (simPoint ps) (sweptSpeeds ps 0 n)" "0 < n"
    by blast
  have sp: "map speedRPM (points (calculateMotorCharacteristics ps)) = sweptSpeeds ps 0 n"
    by (simp add: n(1) comp_def)
  have strict: "sorted_wrt (<) (sweptSpeeds ps 0 n)"
    unfolding sweptSpeeds_def using stepRPM_pos[of ps]
    by (simp add: sorted_wrt_map sorted_wrt_iff_nth_less)
  have "speedRPM (hd (points (calculateMotorCharacteristics ps))) = 0"
    using n by (simp add: hd_map sweptSpeeds_def hd_conv_nth)
  moreover have "\<forall>i. Suc i < length (points (calculateMotorCharacteristics ps)) \<longrightarrow>
             speedRPM (points (calculateMotorCharacteristics ps) ! Suc i)
               = speedRPM (points (calculateMotorCharacteristics ps) ! i)
                 + max 10 (of_int \<lceil>maxSpeed ps / 100\<rceil>)"
    by (simp add: n(1) sweptSpeeds_def stepRPM_def algebra_simps)
  moreover have "points (calculateMotorCharacteristics ps) \<noteq> []"
    using n by (simp add: sweptSpeeds_def)
  moreover have "sorted_wrt (<) (map speedRPM (points (calculateMotorCharacteristics ps)))"
    using strict by (simp only: sp)
  moreover have "sorted (map speedRPM (points (calculateMotorCharacteristics ps)))"
    using strict_sorted_imp_sorted[OF strict] by (simp only: sp)
  ultimately show ?thesis by blast
qed

theorem sweep_speeds_witness:
  "0 \<le> maxSpeed DEFAULT_PARAMS
   \<and> points (calculateMotorCharacteristics DEFAULT_PARAMS) \<noteq> []
   \<and> speedRPM (hd (points (calculateMotorCharacteristics DEFAULT_PARAMS))) = 0
   \<and> Suc 0 < length (points (calculateMotorCharacteristics DEFAULT_PARAMS))
   \<and> speedRPM (points (calculateMotorCharacteristics DEFAULT_PARAMS) ! Suc 0)
       = speedRPM (points (calculateMotorCharacteristics DEFAULT_PARAMS) ! 0) + 50"
proof -
  have m: "0 \<le> maxSpeed DEFAULT_PARAMS" by (simp add: DEFAULT_PARAMS_def)
  have l: "Suc 0 < length (points (calculateMotorCharacteristics DEFAULT_PARAMS))"
    using calc_two_points[of DEFAULT_PARAMS] by (simp add: stepRPM_DEFAULT) (simp add: DEFAULT_PARAMS_def)
  have s: "max 10 (of_int \<lceil>maxSpeed DEFAULT_PARAMS / 100\<rceil>) = (50::real)"
    by (simp add: DEFAULT_PARAMS_def)
  show ?thesis using sweep_speeds [OF m] m l s by simp
qed

text \<open>
  C7.  No point of the result other than the last has both \<open>speedRPM > 100\<close> and clamped
  torque below 0.01; and a pass of the loop that produces such a point pushes it and ends
  the sweep: the state returned is the state right after that push.
\<close>

theorem no_point_after_collapse:
  "(\<forall>i. Suc i < length (points (calculateMotorCharacteristics ps)) \<longrightarrow>
        \<not> (speedRPM (points (calculateMotorCharacteristics ps) ! i) > 100
           \<and> torque (points (calculateMotorCharacteristics ps) ! i) < 0.01))
   \<and> (\<forall>rpm st. rpm \<le> maxSpeed ps \<and> rpm > 100 \<and> torque (simPoint ps rpm) < 0.01 \<longrightarrow>
          sweep ps rpm st = sweepBody ps rpm st
          \<and> points (sweep ps rpm st) = points st @ [simPoint ps rpm])"
proof -
  from calc_points_shape[of ps] obtain n where
    n: "points (calculateMotorCharacteristics ps) = map (simPoint ps) (sweptSpeeds ps 0 n)"
       "\<forall>k. Suc k < n \<longrightarrow> \<not> collapsed (simPoint ps (real k * stepRPM ps))"
    by blast
  have a: "\<forall>i. Suc i < length (points (calculateMotorCharacteristics ps)) \<longrightarrow>
        \<not> (speedRPM (points (calculateMotorCharacteristics ps) ! i) > 100
           \<and> torque (points (calculateMotorCharacteristics ps) ! i) < 0.01)"
  proof (intro allI impI)
    fix i assume "Suc i < length (points (calculateMotorCharacteristics ps))"
    then have i: "Suc i < n" by (simp add: n(1) sweptSpeeds_def)
    then have "\<not> collapsed (simPoint ps (real i * stepRPM ps))" using n(2) by blast
    moreover have "points (calculateMotorCharacteristics ps) ! i = simPoint ps (real i * stepRPM ps)"
      using i by (simp add: n(1) sweptSpeeds_def)
    ultimately show "\<not> (speedRPM (points (calculateMotorCharacteristics ps) ! i) > 100
           \<and> torque (points (calculateMotorCharacteristics ps) ! i) < 0.01)"
      by (simp add: collapsed_def)
  qed
  have b: "\<forall>rpm st. rpm \<le> maxSpeed ps \<and> rpm > 100 \<and> torque (simPoint ps rpm) < 0.01 \<longrightarrow>
          sweep ps rpm st = sweepBody ps rpm st
          \<and> points (sweep ps rpm st) = points st @ [simPoint ps rpm]"
  proof (intro allI impI)
    fix rpm st assume h: "rpm \<le> maxSpeed ps \<and> rpm > 100 \<and> torque (simPoint ps rpm) < 0.01"
    then have "sweep ps rpm st = sweepBody ps rpm st"
      by (subst sweep.simps) (simp add: collapsed_def)
    then show "sweep ps rpm st = sweepBody ps rpm st
          \<and> points (sweep ps rpm st) = points st @ [simPoint ps rpm]" by simp
  qed
  show ?thesis using a b by blast
qed

theorem no_point_after_collapse_witness:
  "Suc 0 < length (points (calculateMotorCharacteristics collapseParams))
   \<and> \<not> (speedRPM (points (calculateMotorCharacteristics collapseParams) ! 0) > 100
           \<and> torque (points (calculateMotorCharacteristics collapseParams) ! 0) < 0.01)
   \<and> 150 \<le> maxSpeed collapseParams \<and> (150::real) > 100
   \<and> torque (simPoint collapseParams 150) < 0.01
   \<and> sweep collapseParams 150 \<lparr>points = [], maxTorque = 0, baseSpeed = 0, maxPower = 0, baseSpeedFound = False\<rparr> =
        sweepBody collapseParams 150 \<lparr>points = [], maxTorque = 0, baseSpeed = 0, maxPower = 0, baseSpeedFound = False\<rparr>
   \<and> points (sweep collapseParams 150 \<lparr>points = [], maxTorque = 0, baseSpeed = 0, maxPower = 0, baseSpeedFound = False\<rparr>)
       = points \<lparr>points = [], maxTorque = 0, baseSpeed = 0, maxPower = 0, baseSpeedFound = False\<rparr> @ [simPoint collapseParams 150]"
proof -
  have l: "Suc 0 < length (points (calculateMotorCharacteristics collapseParams))"
    using calc_two_points[of collapseParams]
    by (simp add: stepRPM_def collapseParams_def DEFAULT_PARAMS_def)
  have t: "torque (simPoint collapseParams 150) < 0.01"
    by (simp add: simPoint_torque_imax0 collapseParams_def)
  have m: "150 \<le> maxSpeed collapseParams" by (simp add: collapseParams_def DEFAULT_PARAMS_def)
  show ?thesis using no_point_after_collapse [of collapseParams] l t m by simp
qed

text \<open>
  C8.  When \<open>vdc > 0\<close> and \<open>voltageUtilization > 0\<close>, every point of the result has its
  \<open>voltageIndex\<close> in the closed interval from 0 to 1, and it is \<open>min 1 (vMag_final / vLim)\<close>
  for the voltage magnitude at the point's own currents and speed.
\<close>

theorem voltageIndex_range:
  assumes "0 < vdc ps" and "0 < voltageUtilization ps"
  shows "\<forall>pt \<in> set (points (calculateMotorCharacteristics ps)).
           0 \<le> voltageIndex pt \<and> voltageIndex pt \<le> 1
           \<and> voltageIndex pt =
               min 1 (getVoltageMag ps (omegaOf ps (speedRPM pt)) (id_axis pt) (iq pt)
                      / ((vdc ps / sqrt 3) * voltageUtilization ps))"
proof
  fix pt assume "pt \<in> set (points (calculateMotorCharacteristics ps))"
  then have pt: "pt = simPoint ps (speedRPM pt)" by (rule calc_points_simPoint)
  have pos: "0 < vLim ps" using assms by (simp add: vLim_def)
  define v where "v = getVoltageMag ps (omegaOf ps (speedRPM pt)) (id_axis pt) (iq pt)"
  have eq: "voltageIndex pt = min 1 (v / vLim ps)"
    unfolding v_def by (subst (1 2 3) pt) (simp add: simPoint_voltageIndex)
  have "0 \<le> v / vLim ps" using pos getVoltageMag_nonneg[of ps] by (simp add: v_def)
  then show "0 \<le> voltageIndex pt \<and> voltageIndex pt \<le> 1
           \<and> voltageIndex pt =
               min 1 (getVoltageMag ps (omegaOf ps (speedRPM pt)) (id_axis pt) (iq pt)
                      / ((vdc ps / sqrt 3) * voltageUtilization ps))"
    using eq by (simp add: v_def vLim_def)
qed

theorem voltageIndex_range_witness:
  "0 < vdc DEFAULT_PARAMS \<and> 0 < voltageUtilization DEFAULT_PARAMS
   \<and> hd (points (calculateMotorCharacteristics DEFAULT_PARAMS))
       \<in> set (points (calculateMotorCharacteristics DEFAULT_PARAMS))
   \<and> 0 \<le> voltageIndex (hd (points (calculateMotorCharacteristics DEFAULT_PARAMS)))
   \<and> voltageIndex (hd (points (calculateMotorCharacteristics DEFAULT_PARAMS))) \<le> 1"
proof -
  have v: "0 < vdc DEFAULT_PARAMS" "0 < voltageUtilization DEFAULT_PARAMS"
    by (simp_all add: DEFAULT_PARAMS_def)
  have "points (calculateMotorCharacteristics DEFAULT_PARAMS) \<noteq> []"
    by (rule calc_points_nonempty) (simp add: DEFAULT_PARAMS_def)
  then have h: "hd (points (calculateMotorCharacteristics DEFAULT_PARAMS))
       \<in> set (points (calculateMotorCharacteristics DEFAULT_PARAMS))" by simp
  show ?thesis using voltageIndex_range [OF v] v h by blast
qed

text \<open>
  The \<open>Id=0\<close> strategy in exact arithmetic: a point has \<open>id < 0\<close> only if flux weakening is
  enabled and its speed exceeds \<open>baseSpeed\<close>; every point at or below \<open>baseSpeed\<close> has
  \<open>id = 0\<close>; and with flux weakening disabled every point has \<open>id = 0\<close> and current
  angle 0.  The case of a base point that violates the voltage limit at standstill (then
  \<open>baseSpeed = 0\<close> and the point at speed 0 is in region 2) rests on the exact identity
  \<open>getVoltageMag_standstill\<close>: at \<open>omega = 0\<close> every angle has the voltage magnitude
  \<open>\<bar>rs * imax\<bar>\<close> of the base point, so the search accepts none.
\<close>

theorem idzero_d_axis_current:
  assumes "controlStrategy ps = IdZero"
  shows "\<forall>pt \<in> set (points (calculateMotorCharacteristics ps)).
           (id_axis pt < 0 \<longrightarrow>
              enableFluxWeakening ps \<and> speedRPM pt > baseSpeed (calculateMotorCharacteristics ps))
         \<and> (speedRPM pt \<le> baseSpeed (calculateMotorCharacteristics ps) \<longrightarrow> id_axis pt = 0)
         \<and> (\<not> enableFluxWeakening ps \<longrightarrow> id_axis pt = 0 \<and> currentAngle pt = 0)"
proof
  fix pt assume mem: "pt \<in> set (points (calculateMotorCharacteristics ps))"
  then have pt: "pt = simPoint ps (speedRPM pt)" by (rule calc_points_simPoint)
  have key: "id_axis pt \<noteq> 0 \<Longrightarrow>
      enableFluxWeakening ps \<and> speedRPM pt > baseSpeed (calculateMotorCharacteristics ps)"
  proof -
    assume "id_axis pt \<noteq> 0"
    then have "id_axis (simPoint ps (speedRPM pt)) \<noteq> 0" using pt by simp
    from simPoint_idzero_nonzero[OF assms this]
    have f: "enableFluxWeakening ps" "baseInfeasible ps (speedRPM pt)" "speedRPM pt \<noteq> 0"
      by simp_all
    show ?thesis using f(1) calc_region2_above_base[OF mem f(2) f(3)] by simp
  qed
  have nofw: "\<not> enableFluxWeakening ps \<Longrightarrow> id_axis pt = 0 \<and> currentAngle pt = 0"
  proof -
    assume n: "\<not> enableFluxWeakening ps"
    have "id_axis (simPoint ps (speedRPM pt)) = 0 \<and> currentAngle (simPoint ps (speedRPM pt)) = 0"
      using operatingPoint_idzero_nofw[OF assms n, of "speedRPM pt"]
      by (simp add: simPoint_currents) (metis fst_conv snd_conv)
    then show ?thesis using pt by simp
  qed
  show "(id_axis pt < 0 \<longrightarrow>
              enableFluxWeakening ps \<and> speedRPM pt > baseSpeed (calculateMotorCharacteristics ps))
         \<and> (speedRPM pt \<le> baseSpeed (calculateMotorCharacteristics ps) \<longrightarrow> id_axis pt = 0)
         \<and> (\<not> enableFluxWeakening ps \<longrightarrow> id_axis pt = 0 \<and> currentAngle pt = 0)"
    using key nofw by fastforce
qed

theorem idzero_d_axis_current_witness:
  "controlStrategy weakeningParams = IdZero
   \<and> points (calculateMotorCharacteristics weakeningParams) ! 1
        \<in> set (points (calculateMotorCharacteristics weakeningParams))
   \<and> id_axis (points (calculateMotorCharacteristics weakeningParams) ! 1) < 0
   \<and> enableFluxWeakening weakeningParams
   \<and> speedRPM (points (calculateMotorCharacteristics weakeningParams) ! 1)
        > baseSpeed (calculateMotorCharacteristics weakeningParams)
   \<and> points (calculateMotorCharacteristics weakeningParams) ! 0
        \<in> set (points (calculateMotorCharacteristics weakeningParams))
   \<and> speedRPM (points (calculateMotorCharacteristics weakeningParams) ! 0)
        \<le> baseSpeed (calculateMotorCharacteristics weakeningParams)
   \<and> id_axis (points (calculateMotorCharacteristics weakeningParams) ! 0) = 0
   \<and> controlStrategy scenarioA = IdZero \<and> \<not> enableFluxWeakening scenarioA
   \<and> hd (points (calculateMotorCharacteristics scenarioA))
        \<in> set (points (calculateMotorCharacteristics scenarioA))
   \<and> id_axis (hd (points (calculateMotorCharacteristics scenarioA))) = 0
   \<and> currentAngle (hd (points (calculateMotorCharacteristics scenarioA))) = 0"
proof -
  have m1: "points (calculateMotorCharacteristics weakeningParams) ! 1
        \<in> set (points (calculateMotorCharacteristics weakeningParams))"
    using weakening_point(1) by (intro nth_mem)
  have m0: "points (calculateMotorCharacteristics weakeningParams) ! 0
        \<in> set (points (calculateMotorCharacteristics weakeningParams))"
    using weakening_point(1) by (intro nth_mem) linarith
  have neg: "id_axis (points (calculateMotorCharacteristics weakeningParams) ! 1) < 0"
    using weakening_id_negative by (simp only: weakening_point(2))
  have s0: "speedRPM (points (calculateMotorCharacteristics weakeningParams) ! 0)
        \<le> baseSpeed (calculateMotorCharacteristics weakeningParams)"
    using calc_baseSpeed_nonneg[of weakeningParams] by (simp add: weakening_point(3))
  have a: "controlStrategy scenarioA = IdZero" "\<not> enableFluxWeakening scenarioA"
    by (simp_all add: scenarioA_def DEFAULT_PARAMS_def)
  have "points (calculateMotorCharacteristics scenarioA) \<noteq> []"
    by (rule calc_points_nonempty) (simp add: scenarioA_def DEFAULT_PARAMS_def)
  then have ma: "hd (points (calculateMotorCharacteristics scenarioA))
        \<in> set (points (calculateMotorCharacteristics scenarioA))" by simp
  show ?thesis
    using idzero_d_axis_current [OF weakening_facts(1)] idzero_d_axis_current [OF a(1)]
      weakening_facts(1,2) m1 m0 neg s0 a ma
    by blast
qed



text \<open>
  C10.  Determinism and statelessness are not stated as a theorem.  In this embedding
  \<open>calculateMotorCharacteristics\<close> is a HOL function of the parameter record, so that equal
  records give equal results is the congruence of equality and holds of every function;
  that the source keeps nothing between calls (no module-level variable, no input or
  output, no clock or random source in \<open>motorPhysics.ts\<close>; every local is initialised in the
  call) is what the embedding takes from reading the source.
\<close>

end
